theory Spec2Isabelle
  imports Main
begin

section \<open>Values, failures and the store\<close>

text \<open>
  The library of \<^verbatim>\<open>src/src/index.ts\<close> is two functions over closures: \<^verbatim>\<open>makeParameter\<close>
  returns a function that closes over a variable \<^verbatim>\<open>value\<close> and over its \<^verbatim>\<open>guard\<close>, and
  \<^verbatim>\<open>parameterize\<close> calls such functions. JavaScript values are a datatype; a function value
  is a reference, since two functions are equal only when they are the same object.
  Numbers are modelled by integers.
\<close>

type_synonym ref = nat

datatype val =
    Undefined
  | Null
  | Bool bool
  | Num int
  | BigInt int
  | Str string
  | Symbol nat
  | Obj nat
  | Arr "val list"
  | Fun ref

text \<open>
  A failure is a value of the left summand: the \<^verbatim>\<open>TypeError\<close>s the library throws itself
  (with their message), or whatever a guard or a body throws.
\<close>

datatype error = TypeError string | Thrown val

text \<open>
  A guard is a function of one argument that returns a value or throws; it is taken to
  have no effect on the store. The variables a parameter function closes over are its
  guard, which is never assigned again, and \<^verbatim>\<open>value\<close>.
\<close>

type_synonym guard = "val \<Rightarrow> error + val"

record closure =
  c_guard :: guard
  c_value :: val

text \<open>
  The store: the closures of the functions of a parameter's shape, the module's
  \<^verbatim>\<open>parameterSet\<close> (a WeakSet of function objects) and the next unused reference.
\<close>

record state =
  heap :: "ref \<rightharpoonup> closure"
  parameterSet :: "ref set"
  next_ref :: ref

definition init :: state where
  "init = \<lparr>heap = Map.empty, parameterSet = {}, next_ref = 0\<rparr>"

text \<open>
  An argument in a position where the library expects a function (the guard, the thunk):
  either a value whose \<^verbatim>\<open>typeof\<close> is not \<^verbatim>\<open>"function"\<close>, or a function with its
  \<^verbatim>\<open>length\<close> and what calling it does. A body can do anything to the store: call
  parameters, make new ones, call \<^verbatim>\<open>parameterize\<close> again.
\<close>

datatype 'f arg = NotFunction val | Function nat 'f

type_synonym thunk = "state \<Rightarrow> (error + val) \<times> state"

section \<open>The predicates of index.ts\<close>

text \<open>\<^verbatim>\<open>Array.isArray(value) && value.length === 2\<close>\<close>

fun isPair :: "val \<Rightarrow> bool" where
  "isPair (Arr xs) = (length xs = 2)"
| "isPair _ = False"

text \<open>\<^verbatim>\<open>typeof value === "function" && value.length === 0\<close>\<close>

fun isThunk :: "'f arg \<Rightarrow> bool" where
  "isThunk (Function n _) = (n = 0)"
| "isThunk (NotFunction _) = False"

text \<open>\<^verbatim>\<open>typeof value === "function" && value.length === 1\<close>\<close>

fun isGuard :: "'f arg \<Rightarrow> bool" where
  "isGuard (Function n _) = (n = 1)"
| "isGuard (NotFunction _) = False"

text \<open>\<^verbatim>\<open>parameterSet.has(value)\<close>: a WeakSet holds objects only, and only
  \<^verbatim>\<open>makeParameter\<close> adds to this one.\<close>

fun isParameter :: "state \<Rightarrow> val \<Rightarrow> bool" where
  "isParameter s (Fun r) = (r \<in> parameterSet s)"
| "isParameter s _ = False"

section \<open>makeParameter and the parameter function\<close>

text \<open>
  The function \<^verbatim>\<open>parameter\<close> of lines 65-72, called on the argument list \<open>args\<close>:
  \<^verbatim>\<open>if (args.length > 0) { const [newValue] = args; value = guard(newValue) } return value\<close>.
  When the guard throws, the assignment does not happen. A reference without a closure is
  not a function of this shape, and calling it is a TypeError.
\<close>

definition parameter :: "ref \<Rightarrow> val list \<Rightarrow> state \<Rightarrow> (error + val) \<times> state" where
  "parameter r args s =
    (case heap s r of
       None \<Rightarrow> (Inl (TypeError ''parameter is not a function''), s)
     | Some c \<Rightarrow>
         if length args > 0 then
           (let newValue = hd args in
            case c_guard c newValue of
              Inl e \<Rightarrow> (Inl e, s)
            | Inr v \<Rightarrow> (Inr v, s\<lparr>heap := (heap s)(r \<mapsto> c\<lparr>c_value := v\<rparr>)\<rparr>))
         else (Inr (c_value c), s))"

text \<open>Calling a value: only function values can be called.\<close>

fun call :: "val \<Rightarrow> val list \<Rightarrow> state \<Rightarrow> (error + val) \<times> state" where
  "call (Fun r) args s = parameter r args s"
| "call _ args s = (Inl (TypeError ''parameter is not a function''), s)"

text \<open>
  \<^verbatim>\<open>makeParameter(initialValue, guard = (x) => x)\<close>: the default applies when the
  argument is omitted or \<^verbatim>\<open>undefined\<close>. The function object is created, and added to
  \<^verbatim>\<open>parameterSet\<close>, only after \<^verbatim>\<open>guard(initialValue)\<close> has returned.
\<close>

definition defaultGuard :: guard where
  "defaultGuard x = Inr x"

definition makeParameter :: "val \<Rightarrow> guard arg \<Rightarrow> state \<Rightarrow> (error + val) \<times> state" where
  "makeParameter initialValue guardArg s =
    (let guard = (case guardArg of NotFunction Undefined \<Rightarrow> Function 1 defaultGuard | _ \<Rightarrow> guardArg) in
     if \<not> isGuard guard then
       (Inl (TypeError ''Expected guard to be a function of one argument''), s)
     else
       (case guard of
          NotFunction _ \<Rightarrow> (Inl (TypeError ''Expected guard to be a function of one argument''), s)
        | Function _ g \<Rightarrow>
            (case g initialValue of
               Inl e \<Rightarrow> (Inl e, s)
             | Inr v \<Rightarrow>
                 (let r = next_ref s in
                  (Inr (Fun r),
                   s\<lparr>heap := (heap s)(r \<mapsto> \<lparr>c_guard = g, c_value = v\<rparr>),
                     parameterSet := insert r (parameterSet s),
                     next_ref := Suc r\<rparr>)))))"

section \<open>parameterize\<close>

text \<open>
  The first argument is any value; the checks of lines 109-111 make it an array of
  two-element arrays before it is destructured. \<open>first\<close> and \<open>second\<close> are the
  destructuring patterns \<^verbatim>\<open>[parameter]\<close> and \<^verbatim>\<open>[parameter, value]\<close>.
\<close>

fun isArray :: "val \<Rightarrow> bool" where
  "isArray (Arr _) = True"
| "isArray _ = False"

fun elements :: "val \<Rightarrow> val list" where
  "elements (Arr xs) = xs"
| "elements _ = []"

fun first :: "val \<Rightarrow> val" where
  "first (Arr (a # _)) = a"
| "first _ = Undefined"

fun second :: "val \<Rightarrow> val" where
  "second (Arr (_ # b # _)) = b"
| "second _ = Undefined"

text \<open>
  \<^verbatim>\<open>originalValues\<close> is a Map, which iterates in insertion order: an association list.
  \<^verbatim>\<open>Map.prototype.set\<close> on a key that is present replaces its value where the key stands.
\<close>

fun map_set :: "val \<Rightarrow> val \<Rightarrow> (val \<times> val) list \<Rightarrow> (val \<times> val) list" where
  "map_set k v [] = [(k, v)]"
| "map_set k v ((k', v') # m) = (if k' = k then (k', v) # m else (k', v') # map_set k v m)"

text \<open>Lines 118-123: the loop that checks each pair's first item and records \<^verbatim>\<open>parameter()\<close>.\<close>

fun snapshotLoop ::
  "val list \<Rightarrow> (val \<times> val) list \<Rightarrow> state \<Rightarrow> (error + (val \<times> val) list) \<times> state" where
  "snapshotLoop [] originalValues s = (Inr originalValues, s)"
| "snapshotLoop (pair # rest) originalValues s =
    (let p = first pair in
     if \<not> isParameter s p then
       (Inl (TypeError ''Expected first item of pair to be a parameter''), s)
     else
       (case call p [] s of
          (Inl e, s') \<Rightarrow> (Inl e, s')
        | (Inr v, s') \<Rightarrow> snapshotLoop rest (map_set p v originalValues) s'))"

text \<open>Lines 127-129: \<^verbatim>\<open>parameter(value)\<close> for each pair; the first throw leaves the loop.\<close>

fun applyLoop :: "val list \<Rightarrow> state \<Rightarrow> (error + unit) \<times> state" where
  "applyLoop [] s = (Inr (), s)"
| "applyLoop (pair # rest) s =
    (case call (first pair) [second pair] s of
       (Inl e, s') \<Rightarrow> (Inl e, s')
     | (Inr _, s') \<Rightarrow> applyLoop rest s')"

text \<open>Lines 132-134: \<^verbatim>\<open>parameter(value)\<close> for each entry of \<^verbatim>\<open>originalValues\<close>.\<close>

fun restoreLoop :: "(val \<times> val) list \<Rightarrow> state \<Rightarrow> (error + unit) \<times> state" where
  "restoreLoop [] s = (Inr (), s)"
| "restoreLoop ((p, v) # rest) s =
    (case call p [v] s of
       (Inl e, s') \<Rightarrow> (Inl e, s')
     | (Inr _, s') \<Rightarrow> restoreLoop rest s')"

text \<open>
  \<^verbatim>\<open>await thunk()\<close>: the body runs in the single flow of control that this model has; a
  body that throws and a body whose promise rejects are both \<open>Inl\<close>.
\<close>

fun callThunk :: "thunk arg \<Rightarrow> thunk" where
  "callThunk (Function _ body) s = body s"
| "callThunk (NotFunction _) s = (Inl (TypeError ''thunk is not a function''), s)"

text \<open>The block under \<^verbatim>\<open>try\<close> (lines 126-130).\<close>

definition tryBlock :: "val \<Rightarrow> thunk arg \<Rightarrow> state \<Rightarrow> (error + val) \<times> state" where
  "tryBlock parameters thunk s =
    (case applyLoop (elements parameters) s of
       (Inl e, s') \<Rightarrow> (Inl e, s')
     | (Inr _, s') \<Rightarrow> callThunk thunk s')"

text \<open>
  \<^verbatim>\<open>parameterize\<close> (lines 105-138). It is an \<^verbatim>\<open>async\<close> function: \<open>Inl\<close> is the
  rejection of the promise it returns, \<open>Inr\<close> the value the promise resolves to. The
  \<^verbatim>\<open>finally\<close> block runs after the \<^verbatim>\<open>try\<close> block however that ended; when it throws,
  its failure replaces the outcome of the \<^verbatim>\<open>try\<close> block, and when it completes, that
  outcome stands.
\<close>

definition parameterize :: "val \<Rightarrow> thunk arg \<Rightarrow> state \<Rightarrow> (error + val) \<times> state" where
  "parameterize parameters thunk s =
    (if \<not> (isArray parameters \<and> list_all isPair (elements parameters)) then
       (Inl (TypeError ''Expected first argument to be an array of pairs''), s)
     else if \<not> isThunk thunk then
       (Inl (TypeError ''Expected second argument to be a thunk''), s)
     else
       (case snapshotLoop (elements parameters) [] s of
          (Inl e, s1) \<Rightarrow> (Inl e, s1)
        | (Inr originalValues, s1) \<Rightarrow>
            (case tryBlock parameters thunk s1 of
               (result, s2) \<Rightarrow>
                 (case restoreLoop originalValues s2 of
                    (Inl e, s3) \<Rightarrow> (Inl e, s3)
                  | (Inr _, s3) \<Rightarrow> (result, s3)))))"

section \<open>Observations and invariants\<close>

text \<open>What \<^verbatim>\<open>p()\<close> evaluates to in a state.\<close>

definition get :: "state \<Rightarrow> val \<Rightarrow> error + val" where
  "get s p = fst (call p [] s)"

text \<open>Every member of \<^verbatim>\<open>parameterSet\<close> is a function made by \<^verbatim>\<open>makeParameter\<close>, so it has
  its closure.\<close>

definition wf :: "state \<Rightarrow> bool" where
  "wf s = (\<forall>r \<in> parameterSet s. heap s r \<noteq> None)"

text \<open>References are handed out in increasing order.\<close>

definition fresh :: "state \<Rightarrow> bool" where
  "fresh s = (\<forall>r. (heap s r \<noteq> None \<or> r \<in> parameterSet s) \<longrightarrow> r < next_ref s)"

text \<open>
  JavaScript has no way to assign the \<^verbatim>\<open>guard\<close> that a closure captured, or to remove a
  function that is still referenced: from \<open>s\<close> to \<open>s'\<close> every closure is still there,
  with its guard.
\<close>

definition guards_kept :: "state \<Rightarrow> state \<Rightarrow> bool" where
  "guards_kept s s' =
    (\<forall>r c. heap s r = Some c \<longrightarrow> (\<exists>c'. heap s' r = Some c' \<and> c_guard c' = c_guard c))"

text \<open>
  In the model a body is any function on states, so what every piece of JavaScript does is
  asked of it: started in a state where the references in use are below the next one, it
  keeps the closures with their guards and ends in such a state. Calls of parameters, of
  \<^verbatim>\<open>makeParameter\<close> and of \<^verbatim>\<open>parameterize\<close>, new functions, and sequences of these have
  the property (the lemmas \<open>body_ok_\<close>...).
\<close>

definition body_ok :: "thunk \<Rightarrow> bool" where
  "body_ok body = (\<forall>s. fresh s \<longrightarrow> guards_kept s (snd (body s)) \<and> fresh (snd (body s)))"

text \<open>The pairs of a well-formed first argument whose first items are all parameters.\<close>

definition valid_bindings :: "state \<Rightarrow> val \<Rightarrow> bool" where
  "valid_bindings s parameters =
    (isArray parameters \<and> list_all isPair (elements parameters) \<and>
     list_all (\<lambda>pair. isParameter s (first pair)) (elements parameters))"

text \<open>Each of the values is a function that has its closure in the state.\<close>

definition has_closures :: "state \<Rightarrow> val list \<Rightarrow> bool" where
  "has_closures s ps = (\<forall>p \<in> set ps. \<exists>r c. p = Fun r \<and> heap s r = Some c)"

text \<open>What \<^verbatim>\<open>p(p())\<close> returns in a state: the guard of \<open>p\<close> on the value \<open>p\<close> holds.\<close>

definition guard_on_held :: "state \<Rightarrow> val \<Rightarrow> error + val" where
  "guard_on_held s p = (case get s p of Inl e \<Rightarrow> Inl e | Inr u \<Rightarrow> fst (call p [u] s))"

text \<open>The guard of parameter \<open>p\<close> accepts the value \<open>p\<close> holds in \<open>s\<close> and returns it
  unchanged.\<close>

definition guard_fixes_held :: "state \<Rightarrow> val \<Rightarrow> bool" where
  "guard_fixes_held s p =
    (case p of
       Fun r \<Rightarrow> (case heap s r of None \<Rightarrow> False | Some c \<Rightarrow> c_guard c (c_value c) = Inr (c_value c))
     | _ \<Rightarrow> False)"




section \<open>Client programs and examples\<close>

text \<open>
  Code outside the module can make any function it likes, also one with the shape and
  the behaviour of a parameter (its own \<^verbatim>\<open>value\<close> and guard); it cannot reach
  \<^verbatim>\<open>parameterSet\<close>. \<open>None\<close> is a function of any other shape.
\<close>

definition newFunction :: "closure option \<Rightarrow> state \<Rightarrow> val \<times> state" where
  "newFunction c s =
    (let r = next_ref s in (Fun r, s\<lparr>heap := (heap s)(r := c), next_ref := Suc r\<rparr>))"

datatype op =
    MakeParameter val "guard arg"
  | NewFunction "closure option"
  | Invoke val "val list"

text \<open>Running a client program: the values \<^verbatim>\<open>makeParameter\<close> returned, and the final state.\<close>

fun run :: "op list \<Rightarrow> state \<Rightarrow> val list \<times> state" where
  "run [] s = ([], s)"
| "run (MakeParameter initialValue guardArg # ops) s =
    (case makeParameter initialValue guardArg s of
       (Inl e, s') \<Rightarrow> run ops s'
     | (Inr p, s') \<Rightarrow> (case run ops s' of (ps, s'') \<Rightarrow> (p # ps, s'')))"
| "run (NewFunction c # ops) s = run ops (snd (newFunction c s))"
| "run (Invoke f args # ops) s = run ops (snd (call f args s))"

text \<open>Bodies and guards used as examples.\<close>

definition emptyBody :: thunk where
  "emptyBody s = (Inr Undefined, s)"

definition throwingBody :: thunk where
  "throwingBody s = (Inl (Thrown (Str ''boom'')), s)"

text \<open>\<^verbatim>\<open>async () => [await body(), p()]\<close>: a body that reads \<open>p\<close> after another body.\<close>

definition thenRead :: "thunk \<Rightarrow> val \<Rightarrow> thunk" where
  "thenRead body p s =
    (case body s of
       (Inl e, s') \<Rightarrow> (Inl e, s')
     | (Inr x, s') \<Rightarrow>
         (case call p [] s' of
            (Inl e, s'') \<Rightarrow> (Inl e, s'')
          | (Inr y, s'') \<Rightarrow> (Inr (Arr [x, y]), s'')))"

text \<open>
  The guard of the documentation comment of \<^verbatim>\<open>makeParameter\<close>, with a type test:
  \<^verbatim>\<open>(n) => { if (typeof n !== "number" || n <= 0) throw "Must be positive"; return n }\<close>
\<close>

definition positiveGuard :: guard where
  "positiveGuard v =
    (case v of
       Num n \<Rightarrow> if n \<le> 0 then Inl (Thrown (Str ''Must be positive'')) else Inr (Num n)
     | _ \<Rightarrow> Inl (Thrown (Str ''Must be positive'')))"

text \<open>\<^verbatim>\<open>(v) => { if (typeof v !== "number") throw "Expected a number"; return v + 1 }\<close>\<close>

definition incrementGuard :: guard where
  "incrementGuard v =
    (case v of Num n \<Rightarrow> Inr (Num (n + 1)) | _ \<Rightarrow> Inl (Thrown (Str ''Expected a number'')))"

text \<open>\<^verbatim>\<open>(v) => { if (typeof v !== "number" || v >= 10) throw "Expected a small number"; return v * 2 }\<close>\<close>

definition doubleSmallGuard :: guard where
  "doubleSmallGuard v =
    (case v of
       Num n \<Rightarrow> if n \<ge> 10 then Inl (Thrown (Str ''Expected a small number'')) else Inr (Num (n * 2))
     | _ \<Rightarrow> Inl (Thrown (Str ''Expected a small number'')))"

text \<open>\<^verbatim>\<open>(v) => { if (typeof v !== "string") throw "Expected a string"; return v + "!" }\<close>\<close>

definition bangGuard :: guard where
  "bangGuard v =
    (case v of Str t \<Rightarrow> Inr (Str (t @ ''!'')) | _ \<Rightarrow> Inl (Thrown (Str ''Expected a string'')))"

text \<open>The state after \<^verbatim>\<open>const p = makeParameter(v)\<close> and after \<^verbatim>\<open>const p = makeParameter(v, g)\<close>
  in a fresh module: \<open>p\<close> is \<open>Fun 0\<close>.\<close>

definition made :: "val \<Rightarrow> state" where
  "made v = snd (makeParameter v (NotFunction Undefined) init)"

definition made_with :: "val \<Rightarrow> guard \<Rightarrow> state" where
  "made_with v g = snd (makeParameter v (Function 1 g) init)"


section \<open>The symbol-tagged variant of index.js\<close>

text \<open>
  \<^verbatim>\<open>src/src/index.js\<close> has no WeakSet. Its \<^verbatim>\<open>makeParameter\<close> gives the function an own
  property, keyed by the symbol \<^verbatim>\<open>IS_PARAMETER_METHOD\<close>, whose value is a method that
  answers \<^verbatim>\<open>METHOD_SECRET\<close> to \<^verbatim>\<open>PARAMETER_SECRET\<close>; its \<^verbatim>\<open>isParameter\<close> looks for the
  property and calls it. An own property of a function object holds a function
  (\<open>Method\<close>, with what calling it on one argument does) or a value that is not a
  function (\<open>Data\<close>). The symbols are distinct values.
\<close>

definition PARAMETER_SECRET :: val where
  "PARAMETER_SECRET = Symbol 1"

definition METHOD_SECRET :: val where
  "METHOD_SECRET = Symbol 2"

datatype property = Method "val \<Rightarrow> error + val" | Data val

text \<open>
  The store of the variant: the closures, for each function object its own property under
  \<^verbatim>\<open>IS_PARAMETER_METHOD\<close> when it has one, and the next unused reference.
\<close>

record js_state =
  js_heap :: "ref \<rightharpoonup> closure"
  own_property :: "ref \<rightharpoonup> property"
  js_next_ref :: ref

definition js_init :: js_state where
  "js_init = \<lparr>js_heap = Map.empty, own_property = Map.empty, js_next_ref = 0\<rparr>"

text \<open>Lines 44-48: \<^verbatim>\<open>(secret) => { if (secret === PARAMETER_SECRET) { return METHOD_SECRET } }\<close>\<close>

definition parameterMethod :: "val \<Rightarrow> error + val" where
  "parameterMethod secret = (if secret = PARAMETER_SECRET then Inr METHOD_SECRET else Inr Undefined)"

text \<open>
  Lines 5-14. \<^verbatim>\<open>typeof value !== 'function' || !Object.hasOwn(value, IS_PARAMETER_METHOD)\<close>
  returns false; otherwise the property is called, and calling a value that is not a
  function throws a TypeError.
\<close>

definition isParameter_js :: "js_state \<Rightarrow> val \<Rightarrow> error + bool" where
  "isParameter_js s v =
    (case v of
       Fun r \<Rightarrow>
         (case own_property s r of
            None \<Rightarrow> Inr False
          | Some (Data d) \<Rightarrow> Inl (TypeError ''value[IS_PARAMETER_METHOD] is not a function'')
          | Some (Method m) \<Rightarrow>
              (case m PARAMETER_SECRET of Inl e \<Rightarrow> Inl e | Inr x \<Rightarrow> Inr (x = METHOD_SECRET)))
     | _ \<Rightarrow> Inr False)"

text \<open>Lines 28-51: as in index.ts, with the property in place of \<^verbatim>\<open>parameterSet.add\<close>.\<close>

definition makeParameter_js :: "val \<Rightarrow> guard arg \<Rightarrow> js_state \<Rightarrow> (error + val) \<times> js_state" where
  "makeParameter_js initialValue guardArg s =
    (let guard = (case guardArg of NotFunction Undefined \<Rightarrow> Function 1 defaultGuard | _ \<Rightarrow> guardArg) in
     if \<not> isGuard guard then
       (Inl (TypeError ''Expected guard to be a function of one argument''), s)
     else
       (case guard of
          NotFunction _ \<Rightarrow> (Inl (TypeError ''Expected guard to be a function of one argument''), s)
        | Function _ g \<Rightarrow>
            (case g initialValue of
               Inl e \<Rightarrow> (Inl e, s)
             | Inr v \<Rightarrow>
                 (let r = js_next_ref s in
                  (Inr (Fun r),
                   s\<lparr>js_heap := (js_heap s)(r \<mapsto> \<lparr>c_guard = g, c_value = v\<rparr>),
                     own_property := (own_property s)(r \<mapsto> Method parameterMethod),
                     js_next_ref := Suc r\<rparr>)))))"

text \<open>
  Code outside the module: \<^verbatim>\<open>const f = () => {}\<close>, then \<^verbatim>\<open>f[k] = x\<close> for the key
  \<^verbatim>\<open>k = Object.getOwnPropertySymbols(p)[0]\<close> of a parameter \<^verbatim>\<open>p\<close>, where \<^verbatim>\<open>x\<close> is any
  value the code has, \<^verbatim>\<open>p[k]\<close> among them.
\<close>

definition defineFunction :: "property option \<Rightarrow> js_state \<Rightarrow> val \<times> js_state" where
  "defineFunction x s =
    (let r = js_next_ref s in
     (Fun r, s\<lparr>own_property := (own_property s)(r := x), js_next_ref := Suc r\<rparr>))"

text \<open>\<^verbatim>\<open>const p = makeParameter(42)\<close> in the variant, from its initial state.\<close>

definition js_one :: js_state where
  "js_one = snd (makeParameter_js (Num 42) (NotFunction Undefined) js_init)"

section \<open>Calling a parameter\<close>

lemma parameter_get_state: "snd (parameter r [] s) = s"
  by (simp add: parameter_def split: option.split)

lemma call_get_state: "snd (call p [] s) = s"
  by (cases p) (simp_all add: parameter_get_state)

lemma call_get_wf:
  "wf s \<Longrightarrow> isParameter s p \<Longrightarrow> \<exists>r c. p = Fun r \<and> heap s r = Some c \<and> call p [] s = (Inr (c_value c), s)"
  by (cases p) (auto simp: wf_def parameter_def)

lemma parameter_set_result:
  "heap s r = Some c \<Longrightarrow> fst (parameter r (x # xs) s) = c_guard c x"
  by (simp add: parameter_def split: sum.split)

lemma call_set_other:
  "p \<noteq> Fun r \<Longrightarrow> fst (call p [v] (s\<lparr>heap := (heap s)(r \<mapsto> c)\<rparr>)) = fst (call p [v] s)"
  by (cases p) (auto simp: parameter_def split: option.split sum.split)



lemma guard_on_held_closure:
  "heap s r = Some c \<Longrightarrow> guard_on_held s (Fun r) = c_guard c (c_value c)"
  by (simp add: guard_on_held_def get_def parameter_def split: sum.split)

lemma made_simps:
  "made v = \<lparr>heap = [0 \<mapsto> \<lparr>c_guard = defaultGuard, c_value = v\<rparr>], parameterSet = {0}, next_ref = Suc 0\<rparr>"
  by (simp add: made_def makeParameter_def init_def defaultGuard_def)

lemma made_with_ok:
  "g v = Inr w \<Longrightarrow>
   made_with v g = \<lparr>heap = [0 \<mapsto> \<lparr>c_guard = g, c_value = w\<rparr>], parameterSet = {0}, next_ref = Suc 0\<rparr>"
  by (simp add: made_with_def makeParameter_def init_def)

lemma made_increment:
  "made_with (Num 0) incrementGuard =
     \<lparr>heap = [0 \<mapsto> \<lparr>c_guard = incrementGuard, c_value = Num 1\<rparr>], parameterSet = {0}, next_ref = Suc 0\<rparr>"
  by (rule made_with_ok) (simp add: incrementGuard_def)

lemma made_doubleSmall:
  "made_with (Num 6) doubleSmallGuard =
     \<lparr>heap = [0 \<mapsto> \<lparr>c_guard = doubleSmallGuard, c_value = Num 12\<rparr>], parameterSet = {0}, next_ref = Suc 0\<rparr>"
  by (rule made_with_ok) (simp add: doubleSmallGuard_def)

lemma made_bang:
  "made_with (Str ''a'') bangGuard =
     \<lparr>heap = [0 \<mapsto> \<lparr>c_guard = bangGuard, c_value = Str ''a!''\<rparr>], parameterSet = {0}, next_ref = Suc 0\<rparr>"
  by (rule made_with_ok) (simp add: bangGuard_def)


section \<open>What a call leaves as it is\<close>

lemma makeParameter_parameterSet:
  "makeParameter initialValue guardArg s = (res, s') \<Longrightarrow>
   (case res of
      Inl e \<Rightarrow> s' = s
    | Inr p \<Rightarrow> p = Fun (next_ref s) \<and> parameterSet s' = insert (next_ref s) (parameterSet s) \<and>
               next_ref s' = Suc (next_ref s) \<and> dom (heap s') = insert (next_ref s) (dom (heap s)))"
  by (auto simp: makeParameter_def Let_def split: if_splits arg.splits sum.splits val.splits)

lemma parameter_frame:
  "parameterSet (snd (parameter r args s)) = parameterSet s \<and>
   next_ref (snd (parameter r args s)) = next_ref s \<and>
   dom (heap (snd (parameter r args s))) = dom (heap s)"
  by (auto simp: parameter_def Let_def split: option.splits sum.splits)

lemma call_frame:
  "parameterSet (snd (call f args s)) = parameterSet s \<and>
   next_ref (snd (call f args s)) = next_ref s \<and>
   dom (heap (snd (call f args s))) = dom (heap s)"
  by (cases f) (simp_all add: parameter_frame)

lemma fresh_init: "fresh init"
  by (simp add: fresh_def init_def)

lemma fresh_makeParameter:
  "fresh s \<Longrightarrow> fresh (snd (makeParameter initialValue guardArg s))"
proof (cases "makeParameter initialValue guardArg s")
  case (Pair res s')
  assume f: "fresh s"
  show ?thesis
  proof (cases res)
    case (Inl e)
    with makeParameter_parameterSet [OF Pair] Pair f show ?thesis by simp
  next
    case (Inr p)
    with makeParameter_parameterSet [OF Pair] have
      m: "parameterSet s' = insert (next_ref s) (parameterSet s)"
        "next_ref s' = Suc (next_ref s)"
        "dom (heap s') = insert (next_ref s) (dom (heap s))"
      by simp_all
    have "fresh s'"
      unfolding fresh_def
    proof (intro allI impI)
      fix r assume "heap s' r \<noteq> None \<or> r \<in> parameterSet s'"
      then have "r \<in> dom (heap s') \<or> r \<in> parameterSet s'" by (auto simp: dom_def)
      with m have "r = next_ref s \<or> r \<in> dom (heap s) \<or> r \<in> parameterSet s" by auto
      with f have "r \<le> next_ref s" by (auto simp: fresh_def dom_def less_imp_le)
      with m show "r < next_ref s'" by simp
    qed
    with Pair show ?thesis by simp
  qed
qed

lemma fresh_newFunction: "fresh s \<Longrightarrow> fresh (snd (newFunction c s))"
  by (fastforce simp: fresh_def newFunction_def Let_def)

lemma fresh_call: "fresh s \<Longrightarrow> fresh (snd (call f args s))"
  using call_frame [of f args s] by (fastforce simp: fresh_def dom_def)

lemma applyLoop_fresh: "fresh s \<Longrightarrow> fresh (snd (applyLoop ps s))"
proof (induction ps arbitrary: s)
  case Nil
  then show ?case by simp
next
  case (Cons pair rest)
  show ?case
  proof (cases "call (first pair) [second pair] s")
    case (Pair res s1)
    have f: "fresh s1"
      using fresh_call [OF Cons.prems, of "first pair" "[second pair]"] Pair by simp
    show ?thesis
    proof (cases res)
      case (Inl e)
      with Pair f show ?thesis by simp
    next
      case (Inr v)
      with Pair have "snd (applyLoop (pair # rest) s) = snd (applyLoop rest s1)" by simp
      with Cons.IH [OF f] show ?thesis by simp
    qed
  qed
qed

lemma restoreLoop_fresh: "fresh s \<Longrightarrow> fresh (snd (restoreLoop m s))"
proof (induction m arbitrary: s)
  case Nil
  then show ?case by simp
next
  case (Cons a rest)
  obtain k v where a: "a = (k, v)" by (cases a)
  show ?case
  proof (cases "call k [v] s")
    case (Pair res s1)
    have f: "fresh s1" using fresh_call [OF Cons.prems, of k "[v]"] Pair by simp
    show ?thesis
    proof (cases res)
      case (Inl e)
      with Pair f a show ?thesis by simp
    next
      case (Inr w)
      with Pair a have "snd (restoreLoop (a # rest) s) = snd (restoreLoop rest s1)" by simp
      with Cons.IH [OF f] show ?thesis by simp
    qed
  qed
qed



section \<open>The snapshot loop\<close>

lemma snapshotLoop_state: "snd (snapshotLoop ps acc s) = s"
proof (induction ps arbitrary: acc)
  case Nil
  show ?case by simp
next
  case (Cons pair rest)
  have st: "snd (call (first pair) [] s) = s" by (rule call_get_state)
  show ?case
  proof (cases "call (first pair) [] s")
    case (Pair res s')
    with st have "s' = s" by simp
    with Pair Cons show ?thesis by (cases res) (simp_all add: Let_def)
  qed
qed

lemma map_set_keys:
  "map fst (map_set k v m) = (if k \<in> fst ` set m then map fst m else map fst m @ [k])"
  by (induction m) force+

lemma map_set_distinct: "distinct (map fst m) \<Longrightarrow> distinct (map fst (map_set k v m))"
  by (simp add: map_set_keys)

lemma map_set_key_set: "fst ` set (map_set k v m) = insert k (fst ` set m)"
proof -
  have "set (map fst (map_set k v m)) = insert k (set (map fst m))"
    by (simp only: map_set_keys) auto
  then show ?thesis by simp
qed

lemma map_set_values:
  "(k', v') \<in> set (map_set k v m) \<Longrightarrow> (k' = k \<and> v' = v) \<or> (k', v') \<in> set m"
  by (induction m) (auto split: if_splits)

lemma snapshotLoop_ok:
  "\<forall>pair \<in> set ps. isParameter s (first pair) \<and> (\<exists>r c. first pair = Fun r \<and> heap s r = Some c) \<Longrightarrow>
   \<exists>m. snapshotLoop ps acc s = (Inr m, s)"
proof (induction ps arbitrary: acc)
  case Nil
  show ?case by simp
next
  case (Cons pair rest)
  from Cons.prems obtain r c where
    "isParameter s (first pair)" "first pair = Fun r" "heap s r = Some c"
    by auto
  moreover from this have "call (first pair) [] s = (Inr (c_value c), s)"
    by (simp add: parameter_def)
  ultimately show ?case using Cons by (simp add: Let_def)
qed

lemma snapshotLoop_fail:
  "wf s \<Longrightarrow> \<not> list_all (\<lambda>pair. isParameter s (first pair)) ps \<Longrightarrow>
   snapshotLoop ps acc s = (Inl (TypeError ''Expected first item of pair to be a parameter''), s)"
proof (induction ps arbitrary: acc)
  case Nil
  then show ?case by simp
next
  case (Cons pair rest)
  show ?case
  proof (cases "isParameter s (first pair)")
    case False
    then show ?thesis by (simp add: Let_def)
  next
    case True
    with Cons.prems obtain r c where
      "first pair = Fun r" "heap s r = Some c" "call (first pair) [] s = (Inr (c_value c), s)"
      using call_get_wf by fastforce
    with Cons True show ?thesis by (simp add: Let_def)
  qed
qed

lemma snapshotLoop_entries:
  "snapshotLoop ps acc s = (Inr m, s') \<Longrightarrow>
   distinct (map fst acc) \<Longrightarrow> (\<forall>(k, v) \<in> set acc. get s k = Inr v) \<Longrightarrow>
   distinct (map fst m) \<and> (\<forall>(k, v) \<in> set m. get s k = Inr v) \<and>
   fst ` set m = fst ` set acc \<union> first ` set ps"
proof (induction ps arbitrary: acc)
  case Nil
  then show ?case by auto
next
  case (Cons pair rest)
  from Cons.prems(1) obtain v where
    c: "call (first pair) [] s = (Inr v, s)" and
    r: "snapshotLoop rest (map_set (first pair) v acc) s = (Inr m, s')"
    using call_get_state [of "first pair" s]
    by (auto simp: Let_def split: if_splits prod.splits sum.splits)
  have d: "distinct (map fst (map_set (first pair) v acc))"
    using Cons.prems(2) by (rule map_set_distinct)
  have g: "get s (first pair) = Inr v" using c by (simp add: get_def)
  have e: "\<forall>(k, w) \<in> set (map_set (first pair) v acc). get s k = Inr w"
    using Cons.prems(3) g by (auto dest: map_set_values)
  from Cons.IH [OF r d e] show ?case by (simp add: map_set_key_set)
qed

section \<open>Guards are kept\<close>

lemma guards_kept_refl: "guards_kept s s"
  by (simp add: guards_kept_def)

lemma guards_kept_trans: "guards_kept s s' \<Longrightarrow> guards_kept s' s'' \<Longrightarrow> guards_kept s s''"
  unfolding guards_kept_def by fastforce

lemma parameter_guards_kept: "guards_kept s (snd (parameter r args s))"
  by (auto simp: guards_kept_def parameter_def Let_def split: option.splits sum.splits)

lemma call_guards_kept: "guards_kept s (snd (call p args s))"
  by (cases p) (simp_all add: parameter_guards_kept guards_kept_refl)

lemma makeParameter_guards_kept:
  "fresh s \<Longrightarrow> guards_kept s (snd (makeParameter initialValue guardArg s))"
  by (auto simp: guards_kept_def fresh_def makeParameter_def Let_def
      split: arg.splits sum.splits val.splits)

lemma newFunction_guards_kept: "fresh s \<Longrightarrow> guards_kept s (snd (newFunction c s))"
  by (auto simp: guards_kept_def fresh_def newFunction_def Let_def)

lemma applyLoop_guards_kept: "guards_kept s (snd (applyLoop ps s))"
proof (induction ps arbitrary: s)
  case Nil
  show ?case by (simp add: guards_kept_refl)
next
  case (Cons pair rest)
  show ?case
  proof (cases "call (first pair) [second pair] s")
    case (Pair res s1)
    have k: "guards_kept s s1"
      using call_guards_kept [of s "first pair" "[second pair]"] Pair by simp
    show ?thesis
    proof (cases res)
      case (Inl e)
      with Pair k show ?thesis by simp
    next
      case (Inr v)
      with Pair have "snd (applyLoop (pair # rest) s) = snd (applyLoop rest s1)" by simp
      with k Cons.IH [of s1] show ?thesis by (auto intro: guards_kept_trans)
    qed
  qed
qed

lemma restoreLoop_guards_kept: "guards_kept s (snd (restoreLoop m s))"
proof (induction m arbitrary: s)
  case Nil
  show ?case by (simp add: guards_kept_refl)
next
  case (Cons a rest)
  obtain k v where a: "a = (k, v)" by (cases a)
  show ?case
  proof (cases "call k [v] s")
    case (Pair res s1)
    have k: "guards_kept s s1" using call_guards_kept [of s k "[v]"] Pair by simp
    show ?thesis
    proof (cases res)
      case (Inl e)
      with Pair k a show ?thesis by simp
    next
      case (Inr w)
      with Pair a have "snd (restoreLoop (a # rest) s) = snd (restoreLoop rest s1)" by simp
      with k Cons.IH [of s1] show ?thesis by (auto intro: guards_kept_trans)
    qed
  qed
qed

lemma tryBlock_kept:
  assumes ok: "body_ok (callThunk thunk)" and fr: "fresh s"
  shows "guards_kept s (snd (tryBlock parameters thunk s)) \<and>
         fresh (snd (tryBlock parameters thunk s))"
proof (cases "applyLoop (elements parameters) s")
  case (Pair res s1)
  have k: "guards_kept s s1"
    using applyLoop_guards_kept [of s "elements parameters"] Pair by simp
  have f: "fresh s1"
    using applyLoop_fresh [OF fr, of "elements parameters"] Pair by simp
  show ?thesis
  proof (cases res)
    case (Inl e)
    with Pair k f show ?thesis by (simp add: tryBlock_def)
  next
    case (Inr u)
    with Pair have "snd (tryBlock parameters thunk s) = snd (callThunk thunk s1)"
      by (simp add: tryBlock_def)
    moreover have "guards_kept s1 (snd (callThunk thunk s1)) \<and> fresh (snd (callThunk thunk s1))"
      using ok f by (simp add: body_ok_def)
    ultimately show ?thesis using k by (auto intro: guards_kept_trans)
  qed
qed

lemma parameterize_unfold:
  "isArray parameters \<and> list_all isPair (elements parameters) \<Longrightarrow> isThunk thunk \<Longrightarrow>
   snapshotLoop (elements parameters) [] s = (Inr m, s1) \<Longrightarrow>
   tryBlock parameters thunk s1 = (result, s2) \<Longrightarrow>
   restoreLoop m s2 = (fin, s3) \<Longrightarrow>
   parameterize parameters thunk s =
     (case fin of Inl e \<Rightarrow> (Inl e, s3) | Inr _ \<Rightarrow> (result, s3))"
  by (simp add: parameterize_def)

lemma parameterize_kept:
  assumes ok: "body_ok (callThunk thunk)" and fr: "fresh s"
  shows "guards_kept s (snd (parameterize parameters thunk s)) \<and>
         fresh (snd (parameterize parameters thunk s))"
proof (cases "isArray parameters \<and> list_all isPair (elements parameters) \<and> isThunk thunk")
  case False
  with fr show ?thesis by (auto simp: parameterize_def guards_kept_refl)
next
  case True
  then have arr: "isArray parameters \<and> list_all isPair (elements parameters)"
    and th: "isThunk thunk" by simp_all
  obtain sn s1 where sn: "snapshotLoop (elements parameters) [] s = (sn, s1)"
    by (cases "snapshotLoop (elements parameters) [] s")
  with snapshotLoop_state [of "elements parameters" "[]" s] have s1: "s1 = s" by simp
  show ?thesis
  proof (cases sn)
    case (Inl e)
    with sn s1 arr th fr show ?thesis by (simp add: parameterize_def guards_kept_refl)
  next
    case (Inr m)
    define s2 where "s2 = snd (tryBlock parameters thunk s)"
    have tb: "tryBlock parameters thunk s = (fst (tryBlock parameters thunk s), s2)"
      by (simp add: s2_def)
    obtain fin s3 where rl: "restoreLoop m s2 = (fin, s3)" by (cases "restoreLoop m s2")
    from tryBlock_kept [OF ok fr, of parameters] have k2: "guards_kept s s2" and f2: "fresh s2"
      by (simp_all add: s2_def)
    have "guards_kept s2 s3" using restoreLoop_guards_kept [of s2 m] rl by simp
    with k2 have k: "guards_kept s s3" by (rule guards_kept_trans)
    have f: "fresh s3" using restoreLoop_fresh [OF f2, of m] rl by simp
    from sn s1 Inr have "snapshotLoop (elements parameters) [] s = (Inr m, s)" by simp
    from parameterize_unfold [OF arr th this tb rl] k f show ?thesis
      by (cases fin) simp_all
  qed
qed

lemma body_ok_call: "body_ok (call p args)"
  by (simp add: body_ok_def call_guards_kept fresh_call)

lemma body_ok_makeParameter: "body_ok (makeParameter initialValue guardArg)"
  by (simp add: body_ok_def makeParameter_guards_kept fresh_makeParameter)

lemma body_ok_newFunction: "body_ok (\<lambda>s. (Inr (fst (newFunction c s)), snd (newFunction c s)))"
  by (simp add: body_ok_def newFunction_guards_kept fresh_newFunction)

lemma body_ok_parameterize:
  "body_ok (callThunk thunk) \<Longrightarrow> body_ok (parameterize parameters thunk)"
  by (simp add: body_ok_def parameterize_kept)

lemma body_ok_emptyBody: "body_ok emptyBody"
  by (simp add: body_ok_def emptyBody_def guards_kept_refl)

lemma body_ok_throwingBody: "body_ok throwingBody"
  by (simp add: body_ok_def throwingBody_def guards_kept_refl)

lemma body_ok_then:
  assumes a: "body_ok body" and b: "\<And>x. body_ok (rest x)"
  shows "body_ok (\<lambda>s. case body s of (Inl e, s') \<Rightarrow> (Inl e, s') | (Inr x, s') \<Rightarrow> rest x s')"
  unfolding body_ok_def
proof (intro allI impI)
  fix s assume f: "fresh s"
  obtain res s1 where r: "body s = (res, s1)" by (cases "body s")
  with a f have k1: "guards_kept s s1" and f1: "fresh s1" by (auto simp: body_ok_def)
  show "guards_kept s (snd (case body s of (Inl e, s') \<Rightarrow> (Inl e, s') | (Inr x, s') \<Rightarrow> rest x s')) \<and>
        fresh (snd (case body s of (Inl e, s') \<Rightarrow> (Inl e, s') | (Inr x, s') \<Rightarrow> rest x s'))"
  proof (cases res)
    case (Inl e)
    with r k1 f1 show ?thesis by simp
  next
    case (Inr x)
    from b [of x] f1 have "guards_kept s1 (snd (rest x s1))" "fresh (snd (rest x s1))"
      by (auto simp: body_ok_def)
    with r Inr k1 show ?thesis by (auto intro: guards_kept_trans)
  qed
qed

lemma body_ok_thenRead: "body_ok body \<Longrightarrow> body_ok (thenRead body p)"
proof -
  assume a: "body_ok body"
  have "snd (thenRead body p s) = snd (body s)" for s
  proof (cases "body s")
    case (Pair res s1)
    have "snd (call p [] s1) = s1" by (rule call_get_state)
    with Pair show ?thesis
      by (cases res; cases "call p [] s1") (auto simp: thenRead_def split: sum.splits)
  qed
  with a show ?thesis by (simp add: body_ok_def)
qed

section \<open>The restoration loop\<close>

lemma restoreLoop_step_ok:
  assumes h: "heap s r = Some c" and g: "c_guard c v = Inr w"
  shows "restoreLoop ((Fun r, v) # rest) s =
           restoreLoop rest (s\<lparr>heap := (heap s)(r \<mapsto> c\<lparr>c_value := w\<rparr>)\<rparr>)"
  using h g by (simp add: parameter_def)

lemma restoreLoop_step_fail:
  assumes h: "heap s r = Some c" and g: "c_guard c v = Inl e"
  shows "restoreLoop ((Fun r, v) # rest) s = (Inl e, s)"
  using h g by (simp add: parameter_def)

lemma has_closures_update:
  assumes "has_closures s ps"
  shows "has_closures (s\<lparr>heap := (heap s)(r \<mapsto> c)\<rparr>) ps"
  unfolding has_closures_def
proof
  fix p assume "p \<in> set ps"
  with assms obtain r' c' where "p = Fun r'" "heap s r' = Some c'"
    by (auto simp: has_closures_def)
  then show "\<exists>q d. p = Fun q \<and> heap (s\<lparr>heap := (heap s)(r \<mapsto> c)\<rparr>) q = Some d"
    by (cases "r' = r") auto
qed



lemma restoreLoop_all_accept:
  "distinct (map fst m) \<Longrightarrow> has_closures s (map fst m) \<Longrightarrow>
   (\<forall>(k, v) \<in> set m. \<exists>w. fst (call k [v] s) = Inr w) \<Longrightarrow>
   \<exists>s'. restoreLoop m s = (Inr (), s') \<and> (\<forall>(k, v) \<in> set m. get s' k = fst (call k [v] s)) \<and>
        (\<forall>r. Fun r \<notin> fst ` set m \<longrightarrow> heap s' r = heap s r)"
proof (induction m arbitrary: s)
  case Nil
  show ?case by simp
next
  case (Cons a rest)
  obtain k v where a: "a = (k, v)" by (cases a)
  from Cons.prems(2) a obtain r c where k: "k = Fun r" and h: "heap s r = Some c"
    by (auto simp: has_closures_def)
  from Cons.prems(3) a obtain w where "fst (call k [v] s) = Inr w" by auto
  with k h have g: "c_guard c v = Inr w" by (simp add: parameter_set_result)
  define s1 where "s1 = s\<lparr>heap := (heap s)(r \<mapsto> c\<lparr>c_value := w\<rparr>)\<rparr>"
  have step: "restoreLoop (a # rest) s = restoreLoop rest s1"
    unfolding a k s1_def using h g by (rule restoreLoop_step_ok)
  have notin: "Fun r \<notin> fst ` set rest" using Cons.prems(1) a k by auto
  have same: "\<forall>(k', v') \<in> set rest. fst (call k' [v'] s1) = fst (call k' [v'] s)"
  proof (clarify)
    fix k' v' assume "(k', v') \<in> set rest"
    with notin have "k' \<noteq> Fun r" by force
    then show "fst (call k' [v'] s1) = fst (call k' [v'] s)"
      unfolding s1_def by (rule call_set_other)
  qed
  have d: "distinct (map fst rest)" using Cons.prems(1) by simp
  have "has_closures s (map fst rest)" using Cons.prems(2) by (simp add: has_closures_def)
  then have c1: "has_closures s1 (map fst rest)"
    unfolding s1_def by (rule has_closures_update)
  have acc: "\<forall>(k, v) \<in> set rest. \<exists>w. fst (call k [v] s1) = Inr w"
    using Cons.prems(3) same by fastforce
  from Cons.IH [OF d c1 acc] obtain s' where
    l: "restoreLoop rest s1 = (Inr (), s')" and
    v: "\<forall>(k, v) \<in> set rest. get s' k = fst (call k [v] s1)" and
    f: "\<forall>r. Fun r \<notin> fst ` set rest \<longrightarrow> heap s' r = heap s1 r"
    by blast
  have "heap s' r = heap s1 r" using f notin by simp
  then have "get s' k = Inr w" using k by (simp add: get_def parameter_def s1_def)
  with k h g have gk: "get s' k = fst (call k [v] s)" by (simp add: parameter_set_result)
  have vr: "\<forall>(k, v) \<in> set rest. get s' k = fst (call k [v] s)"
    using v same by fastforce
  have fr: "\<forall>r'. Fun r' \<notin> fst ` set (a # rest) \<longrightarrow> heap s' r' = heap s r'"
    using f a k by (auto simp: s1_def)
  from step l have "restoreLoop (a # rest) s = (Inr (), s')" by simp
  with vr gk fr a show ?case by auto
qed

lemma restoreLoop_some_reject:
  "distinct (map fst m) \<Longrightarrow> has_closures s (map fst m) \<Longrightarrow>
   (\<exists>(k, v) \<in> set m. \<exists>e. fst (call k [v] s) = Inl e) \<Longrightarrow>
   \<exists>(k, v) \<in> set m. \<exists>e. fst (call k [v] s) = Inl e \<and> fst (restoreLoop m s) = Inl e"
proof (induction m arbitrary: s)
  case Nil
  then show ?case by simp
next
  case (Cons a rest)
  obtain k v where a: "a = (k, v)" by (cases a)
  from Cons.prems(2) a obtain r c where k: "k = Fun r" and h: "heap s r = Some c"
    by (auto simp: has_closures_def)
  show ?case
  proof (cases "c_guard c v")
    case (Inl e)
    from restoreLoop_step_fail [OF h Inl, of rest] a k
    have "fst (restoreLoop (a # rest) s) = Inl e" by simp
    moreover have "fst (call k [v] s) = Inl e" using k h Inl by (simp add: parameter_set_result)
    ultimately show ?thesis using a by auto
  next
    case (Inr w)
    define s1 where "s1 = s\<lparr>heap := (heap s)(r \<mapsto> c\<lparr>c_value := w\<rparr>)\<rparr>"
    have step: "restoreLoop (a # rest) s = restoreLoop rest s1"
      unfolding a k s1_def using h Inr by (rule restoreLoop_step_ok)
    have notin: "Fun r \<notin> fst ` set rest" using Cons.prems(1) a k by auto
    have same: "\<forall>(k', v') \<in> set rest. fst (call k' [v'] s1) = fst (call k' [v'] s)"
    proof (clarify)
      fix k' v' assume "(k', v') \<in> set rest"
      with notin have "k' \<noteq> Fun r" by force
      then show "fst (call k' [v'] s1) = fst (call k' [v'] s)"
        unfolding s1_def by (rule call_set_other)
    qed
    have d: "distinct (map fst rest)" using Cons.prems(1) by simp
    have "has_closures s (map fst rest)" using Cons.prems(2) by (simp add: has_closures_def)
    then have c1: "has_closures s1 (map fst rest)"
      unfolding s1_def by (rule has_closures_update)
    have "fst (call k [v] s) = Inr w" using k h Inr by (simp add: parameter_set_result)
    with Cons.prems(3) a have "\<exists>(k, v) \<in> set rest. \<exists>e. fst (call k [v] s) = Inl e" by auto
    with same have rej: "\<exists>(k, v) \<in> set rest. \<exists>e. fst (call k [v] s1) = Inl e" by fastforce
    from Cons.IH [OF d c1 rej] obtain k' v' e where
      "(k', v') \<in> set rest" "fst (call k' [v'] s1) = Inl e" "fst (restoreLoop rest s1) = Inl e"
      by auto
    with same step have
      "(k', v') \<in> set (a # rest)" "fst (call k' [v'] s) = Inl e" "fst (restoreLoop (a # rest) s) = Inl e"
      by auto
    then show ?thesis by blast
  qed
qed


lemma parameterize_snapshot_try:
  assumes vb: "valid_bindings s parameters"
    and th: "isThunk thunk"
    and ok: "body_ok (callThunk thunk)"
    and cl: "has_closures s (map first (elements parameters))"
    and fr: "fresh s"
  shows "\<exists>m s2. snapshotLoop (elements parameters) [] s = (Inr m, s) \<and>
           distinct (map fst m) \<and>
           fst ` set m = first ` set (elements parameters) \<and>
           tryBlock parameters thunk s = (fst (tryBlock parameters thunk s), s2) \<and>
           has_closures s2 (map fst m) \<and>
           (\<forall>(k, v) \<in> set m. fst (call k [v] s2) = guard_on_held s k)"
proof -
  from vb have all: "list_all (\<lambda>pair. isParameter s (first pair)) (elements parameters)"
    by (simp add: valid_bindings_def)
  have "\<forall>pair \<in> set (elements parameters).
          isParameter s (first pair) \<and> (\<exists>r c. first pair = Fun r \<and> heap s r = Some c)"
    using all cl by (auto simp: list_all_iff has_closures_def)
  from snapshotLoop_ok [OF this] obtain m where
    sn: "snapshotLoop (elements parameters) [] s = (Inr m, s)" by blast
  from snapshotLoop_entries [OF sn] have
    dm: "distinct (map fst m)" and
    vm: "\<forall>(k, v) \<in> set m. get s k = Inr v" and
    km: "fst ` set m = first ` set (elements parameters)"
    by simp_all
  define s2 where "s2 = snd (tryBlock parameters thunk s)"
  have tb: "tryBlock parameters thunk s = (fst (tryBlock parameters thunk s), s2)"
    by (simp add: s2_def)
  have kept: "guards_kept s s2"
    using tryBlock_kept [OF ok fr, of parameters] by (simp add: s2_def)
  have each: "\<forall>(k, v) \<in> set m. (\<exists>r c. k = Fun r \<and> heap s2 r = Some c) \<and>
                fst (call k [v] s2) = guard_on_held s k"
  proof (clarify)
    fix k v assume m: "(k, v) \<in> set m"
    then have "k \<in> fst ` set m" by force
    with km cl obtain r c where x: "k = Fun r" "heap s r = Some c"
      by (auto simp: has_closures_def)
    from vm m have "get s k = Inr v" by auto
    with x have v: "v = c_value c" by (simp add: get_def parameter_def)
    from kept x(2) obtain c' where y: "heap s2 r = Some c'" "c_guard c' = c_guard c"
      by (auto simp: guards_kept_def)
    have "fst (call k [v] s2) = c_guard c (c_value c)"
      using x y v by (simp add: parameter_set_result)
    with x y show "(\<exists>r c. k = Fun r \<and> heap s2 r = Some c) \<and>
                fst (call k [v] s2) = guard_on_held s k"
      by (simp add: guard_on_held_closure)
  qed
  then have "has_closures s2 (map fst m)" by (fastforce simp: has_closures_def)
  with sn dm km tb each show ?thesis by blast
qed

lemma parameterize_all_accept:
  assumes vb: "valid_bindings s parameters"
    and th: "isThunk thunk"
    and ok: "body_ok (callThunk thunk)"
    and cl: "has_closures s (map first (elements parameters))"
    and fr: "fresh s"
    and acc: "\<forall>pair \<in> set (elements parameters). \<exists>w. guard_on_held s (first pair) = Inr w"
  shows "\<exists>m s2 s3. snapshotLoop (elements parameters) [] s = (Inr m, s) \<and>
           fst ` set m = first ` set (elements parameters) \<and>
           tryBlock parameters thunk s = (fst (tryBlock parameters thunk s), s2) \<and>
           restoreLoop m s2 = (Inr (), s3) \<and>
           parameterize parameters thunk s = (fst (tryBlock parameters thunk s), s3) \<and>
           (\<forall>pair \<in> set (elements parameters). get s3 (first pair) = guard_on_held s (first pair))"
proof -
  from vb have arr: "isArray parameters \<and> list_all isPair (elements parameters)"
    by (simp add: valid_bindings_def)
  from parameterize_snapshot_try [OF vb th ok cl fr] obtain m s2 where
    sn: "snapshotLoop (elements parameters) [] s = (Inr m, s)" and
    dm: "distinct (map fst m)" and
    km: "fst ` set m = first ` set (elements parameters)" and
    tb: "tryBlock parameters thunk s = (fst (tryBlock parameters thunk s), s2)" and
    c2: "has_closures s2 (map fst m)" and
    gs: "\<forall>(k, v) \<in> set m. fst (call k [v] s2) = guard_on_held s k"
    by blast
  have a2: "\<forall>(k, v) \<in> set m. \<exists>w. fst (call k [v] s2) = Inr w"
  proof (clarify)
    fix k v assume m: "(k, v) \<in> set m"
    then have "k \<in> fst ` set m" by force
    with km acc obtain w where "guard_on_held s k = Inr w" by auto
    with gs m show "\<exists>w. fst (call k [v] s2) = Inr w" by auto
  qed
  from restoreLoop_all_accept [OF dm c2 a2] obtain s3 where
    rl: "restoreLoop m s2 = (Inr (), s3)" and
    rv: "\<forall>(k, v) \<in> set m. get s3 k = fst (call k [v] s2)"
    by blast
  have pz: "parameterize parameters thunk s = (fst (tryBlock parameters thunk s), s3)"
    using parameterize_unfold [OF arr th sn tb rl] by simp
  have "\<forall>pair \<in> set (elements parameters). get s3 (first pair) = guard_on_held s (first pair)"
  proof
    fix pair assume "pair \<in> set (elements parameters)"
    with km have "first pair \<in> fst ` set m" by auto
    then obtain v where "(first pair, v) \<in> set m" by force
    with gs rv have "get s3 (first pair) = fst (call (first pair) [v] s2)"
      "fst (call (first pair) [v] s2) = guard_on_held s (first pair)" by fastforce+
    then show "get s3 (first pair) = guard_on_held s (first pair)" by simp
  qed
  with sn km tb rl pz show ?thesis by blast
qed

lemma parameterize_some_reject:
  assumes vb: "valid_bindings s parameters"
    and th: "isThunk thunk"
    and ok: "body_ok (callThunk thunk)"
    and cl: "has_closures s (map first (elements parameters))"
    and fr: "fresh s"
    and rej: "\<exists>pair \<in> set (elements parameters). \<exists>e. guard_on_held s (first pair) = Inl e"
  shows "\<exists>pair \<in> set (elements parameters). \<exists>e.
           guard_on_held s (first pair) = Inl e \<and> fst (parameterize parameters thunk s) = Inl e"
proof -
  from vb have arr: "isArray parameters \<and> list_all isPair (elements parameters)"
    by (simp add: valid_bindings_def)
  from parameterize_snapshot_try [OF vb th ok cl fr] obtain m s2 where
    sn: "snapshotLoop (elements parameters) [] s = (Inr m, s)" and
    dm: "distinct (map fst m)" and
    km: "fst ` set m = first ` set (elements parameters)" and
    tb: "tryBlock parameters thunk s = (fst (tryBlock parameters thunk s), s2)" and
    c2: "has_closures s2 (map fst m)" and
    gs: "\<forall>(k, v) \<in> set m. fst (call k [v] s2) = guard_on_held s k"
    by blast
  from rej obtain pair e where p: "pair \<in> set (elements parameters)"
    and e: "guard_on_held s (first pair) = Inl e" by blast
  from p km have "first pair \<in> fst ` set m" by auto
  then obtain v where "(first pair, v) \<in> set m" by force
  with gs e have "\<exists>(k, v) \<in> set m. \<exists>e. fst (call k [v] s2) = Inl e" by fastforce
  from restoreLoop_some_reject [OF dm c2 this] obtain k v' e' where
    m: "(k, v') \<in> set m" and c: "fst (call k [v'] s2) = Inl e'" and
    r: "fst (restoreLoop m s2) = Inl e'"
    by auto
  from m km obtain pair' where p': "pair' \<in> set (elements parameters)" "k = first pair'"
    by force
  from gs m c have g: "guard_on_held s k = Inl e'" by fastforce
  obtain s3 where rl: "restoreLoop m s2 = (Inl e', s3)" using r by (cases "restoreLoop m s2") simp
  from parameterize_unfold [OF arr th sn tb rl] have "fst (parameterize parameters thunk s) = Inl e'"
    by simp
  with p' g show ?thesis by blast
qed

lemma guard_fixes_heldD:
  "guard_fixes_held s p \<Longrightarrow>
   \<exists>r c. p = Fun r \<and> heap s r = Some c \<and> c_guard c (c_value c) = Inr (c_value c)"
  by (cases p) (auto simp: guard_fixes_held_def split: option.splits)

lemma guard_fixes_held_on:
  assumes "guard_fixes_held s p"
  shows "(\<exists>r c. p = Fun r \<and> heap s r = Some c) \<and> guard_on_held s p = get s p \<and>
         (\<exists>w. guard_on_held s p = Inr w)"
proof -
  from guard_fixes_heldD [OF assms] obtain r c where
    x: "p = Fun r" "heap s r = Some c" "c_guard c (c_value c) = Inr (c_value c)" by blast
  then have "guard_on_held s p = Inr (c_value c)" by (simp add: guard_on_held_closure)
  moreover have "get s p = Inr (c_value c)" using x by (simp add: get_def parameter_def)
  ultimately show ?thesis using x by simp
qed

section \<open>Failure of the body or of a binding\<close>

text \<open>
  When the guard of every listed parameter returns the value that parameter holds
  unchanged, a failure of the \<^verbatim>\<open>try\<close> block is propagated after the restoration loop has
  run to its end, and every listed parameter returns its pre-call value.
\<close>

lemma restores_when_guards_fix:
  assumes vb: "valid_bindings s parameters"
    and th: "isThunk thunk"
    and ok: "body_ok (callThunk thunk)"
    and fr: "fresh s"
    and fx: "\<forall>pair \<in> set (elements parameters). guard_fixes_held s (first pair)"
    and failed: "fst (tryBlock parameters thunk s) = Inl e"
  shows "\<exists>m s2 s3. snapshotLoop (elements parameters) [] s = (Inr m, s) \<and>
           fst ` set m = first ` set (elements parameters) \<and>
           tryBlock parameters thunk s = (Inl e, s2) \<and>
           restoreLoop m s2 = (Inr (), s3) \<and>
           parameterize parameters thunk s = (Inl e, s3) \<and>
           (\<forall>pair \<in> set (elements parameters). get s3 (first pair) = get s (first pair))"
proof -
  have cl: "has_closures s (map first (elements parameters))"
    unfolding has_closures_def
  proof
    fix p assume "p \<in> set (map first (elements parameters))"
    with fx have "guard_fixes_held s p" by auto
    from guard_fixes_held_on [OF this] show "\<exists>r c. p = Fun r \<and> heap s r = Some c" by blast
  qed
  have acc: "\<forall>pair \<in> set (elements parameters). \<exists>w. guard_on_held s (first pair) = Inr w"
    using fx guard_fixes_held_on by blast
  have eq: "\<forall>pair \<in> set (elements parameters). guard_on_held s (first pair) = get s (first pair)"
    using fx guard_fixes_held_on by blast
  from parameterize_all_accept [OF vb th ok cl fr acc] eq failed show ?thesis by simp
qed

text \<open>
  C1, at \<^verbatim>\<open>p = makeParameter(0, incrementGuard)\<close>, which holds 1, and a body that throws.
  The pair passes validation, and \<^verbatim>\<open>parameterize([[p, 5]], body)\<close> fails with what the
  body threw after the restoration loop has run, but \<^verbatim>\<open>p()\<close> is 2 afterwards, not 1: the
  restoration calls \<^verbatim>\<open>p(1)\<close>, which stores \<^verbatim>\<open>guard(1)\<close>. At
  \<^verbatim>\<open>p = makeParameter(6, doubleSmallGuard)\<close>, which holds 12, the restoration itself throws:
  \<^verbatim>\<open>parameterize([[p, 1]], body)\<close> fails with what the guard threw, not with what the body
  threw, and \<^verbatim>\<open>p()\<close> is 2 afterwards.
\<close>

theorem failure_not_restored:
  "valid_bindings (made_with (Num 0) incrementGuard) (Arr [Arr [Fun 0, Num 5]]) \<and>
   isThunk (Function 0 throwingBody) \<and>
   get (made_with (Num 0) incrementGuard) (Fun 0) = Inr (Num 1) \<and>
   fst (tryBlock (Arr [Arr [Fun 0, Num 5]]) (Function 0 throwingBody) (made_with (Num 0) incrementGuard))
     = Inl (Thrown (Str ''boom'')) \<and>
   fst (parameterize (Arr [Arr [Fun 0, Num 5]]) (Function 0 throwingBody) (made_with (Num 0) incrementGuard))
     = Inl (Thrown (Str ''boom'')) \<and>
   get (snd (parameterize (Arr [Arr [Fun 0, Num 5]]) (Function 0 throwingBody) (made_with (Num 0) incrementGuard))) (Fun 0)
     = Inr (Num 2) \<and>
   valid_bindings (made_with (Num 6) doubleSmallGuard) (Arr [Arr [Fun 0, Num 1]]) \<and>
   get (made_with (Num 6) doubleSmallGuard) (Fun 0) = Inr (Num 12) \<and>
   fst (tryBlock (Arr [Arr [Fun 0, Num 1]]) (Function 0 throwingBody) (made_with (Num 6) doubleSmallGuard))
     = Inl (Thrown (Str ''boom'')) \<and>
   fst (parameterize (Arr [Arr [Fun 0, Num 1]]) (Function 0 throwingBody) (made_with (Num 6) doubleSmallGuard))
     = Inl (Thrown (Str ''Expected a small number'')) \<and>
   get (snd (parameterize (Arr [Arr [Fun 0, Num 1]]) (Function 0 throwingBody) (made_with (Num 6) doubleSmallGuard))) (Fun 0)
     = Inr (Num 2)"
  by (simp add: made_increment made_doubleSmall valid_bindings_def tryBlock_def parameterize_def
      parameter_def get_def incrementGuard_def doubleSmallGuard_def throwingBody_def Let_def)

section \<open>Round trip\<close>

text \<open>
  When the guard of \<open>p\<close> accepts \<open>v\<close> and returns the value \<open>p\<close> holds unchanged,
  \<^verbatim>\<open>parameterize([[p, v]], () => {})\<close> completes and \<^verbatim>\<open>p()\<close> afterwards is the value
  \<open>p\<close> held before the call.
\<close>

lemma round_trip_when_guard_fixes:
  assumes p: "r \<in> parameterSet s"
    and h: "heap s r = Some c"
    and fr: "fresh s"
    and accepted: "c_guard c v = Inr w"
    and fixed: "c_guard c (c_value c) = Inr (c_value c)"
  shows "\<exists>s'. parameterize (Arr [Arr [Fun r, v]]) (Function 0 emptyBody) s = (Inr Undefined, s') \<and>
              get s' (Fun r) = Inr (c_value c) \<and> get s (Fun r) = Inr (c_value c)"
proof -
  let ?ps = "Arr [Arr [Fun r, v]]"
  let ?th = "Function 0 emptyBody"
  have vb: "valid_bindings s ?ps" using p by (simp add: valid_bindings_def)
  have th: "isThunk ?th" by simp
  have ok: "body_ok (callThunk ?th)"
    using body_ok_emptyBody by (simp add: callThunk.simps [abs_def])
  have cl: "has_closures s (map first (elements ?ps))" using h by (simp add: has_closures_def)
  have on: "guard_on_held s (Fun r) = Inr (c_value c)"
    using h fixed by (simp add: guard_on_held_closure)
  then have acc: "\<forall>pair \<in> set (elements ?ps). \<exists>w. guard_on_held s (first pair) = Inr w"
    by simp
  have tb: "fst (tryBlock ?ps ?th s) = Inr Undefined"
    using h accepted by (simp add: tryBlock_def parameter_def emptyBody_def)
  have g: "get s (Fun r) = Inr (c_value c)"
    using h by (simp add: get_def parameter_def)
  from parameterize_all_accept [OF vb th ok cl fr acc] tb g on show ?thesis by auto
qed

text \<open>
  C2, at \<^verbatim>\<open>p = makeParameter(0, incrementGuard)\<close>, which holds 1. The guard accepts 5,
  \<^verbatim>\<open>parameterize([[p, 5]], () => {})\<close> completes, and \<^verbatim>\<open>p()\<close> is 2 afterwards, not the
  value \<open>p\<close> held before the call.
\<close>

theorem round_trip_not_restored:
  "isParameter (made_with (Num 0) incrementGuard) (Fun 0) \<and>
   fst (call (Fun 0) [Num 5] (made_with (Num 0) incrementGuard)) = Inr (Num 6) \<and>
   get (made_with (Num 0) incrementGuard) (Fun 0) = Inr (Num 1) \<and>
   fst (parameterize (Arr [Arr [Fun 0, Num 5]]) (Function 0 emptyBody) (made_with (Num 0) incrementGuard))
     = Inr Undefined \<and>
   get (snd (parameterize (Arr [Arr [Fun 0, Num 5]]) (Function 0 emptyBody) (made_with (Num 0) incrementGuard))) (Fun 0)
     = Inr (Num 2)"
  by (simp add: made_increment tryBlock_def parameterize_def parameter_def
      get_def incrementGuard_def emptyBody_def Let_def)

section \<open>The held value\<close>








section \<open>Duplicate bindings\<close>

text \<open>
  C4, as the code has it. The snapshot of any list of pairs has each parameter once, with
  the value it held before the call, and leaves the state unchanged. For a parameter
  \<open>p\<close> of any state whose guard accepts \<open>x\<close> and \<open>y\<close>, in
  \<^verbatim>\<open>parameterize([[p, x], [p, y]], () => p())\<close> the snapshot is the one entry of \<open>p\<close> with
  the value \<open>p\<close> held before the call, the body returns what the guard returned on
  \<open>y\<close>, and the restoration is the one call of \<open>p\<close> on the snapshotted value; when that
  call returns, \<^verbatim>\<open>parameterize\<close> returns what the body returned.
\<close>

theorem duplicate_bindings:
  "(snapshotLoop ps [] s = (Inr m, s') \<longrightarrow>
      s' = s \<and> distinct (map fst m) \<and> (\<forall>(k, v) \<in> set m. get s k = Inr v) \<and>
      fst ` set m = first ` set ps) \<and>
   (r \<in> parameterSet s \<and> heap s r = Some c \<and> c_guard c x = Inr a \<and> c_guard c y = Inr b \<longrightarrow>
      snapshotLoop [Arr [Fun r, x], Arr [Fun r, y]] [] s = (Inr [(Fun r, c_value c)], s) \<and>
      tryBlock (Arr [Arr [Fun r, x], Arr [Fun r, y]]) (Function 0 (call (Fun r) [])) s =
        (Inr b, s\<lparr>heap := (heap s)(r \<mapsto> c\<lparr>c_value := b\<rparr>)\<rparr>) \<and>
      restoreLoop [(Fun r, c_value c)] (s\<lparr>heap := (heap s)(r \<mapsto> c\<lparr>c_value := b\<rparr>)\<rparr>) =
        (case parameter r [c_value c] (s\<lparr>heap := (heap s)(r \<mapsto> c\<lparr>c_value := b\<rparr>)\<rparr>) of
           (Inl e, s3) \<Rightarrow> (Inl e, s3)
         | (Inr _, s3) \<Rightarrow> (Inr (), s3)) \<and>
      parameterize (Arr [Arr [Fun r, x], Arr [Fun r, y]]) (Function 0 (call (Fun r) [])) s =
        (case parameter r [c_value c] (s\<lparr>heap := (heap s)(r \<mapsto> c\<lparr>c_value := b\<rparr>)\<rparr>) of
           (Inl e, s3) \<Rightarrow> (Inl e, s3)
         | (Inr _, s3) \<Rightarrow> (Inr b, s3)))"
proof (intro conjI impI)
  assume a: "snapshotLoop ps [] s = (Inr m, s')"
  have "snd (snapshotLoop ps [] s) = s" by (rule snapshotLoop_state)
  with a show "s' = s" by simp
  from snapshotLoop_entries [OF a]
  show "distinct (map fst m)" "\<forall>(k, v) \<in> set m. get s k = Inr v" "fst ` set m = first ` set ps"
    by simp_all
next
  assume "r \<in> parameterSet s \<and> heap s r = Some c \<and> c_guard c x = Inr a \<and> c_guard c y = Inr b"
  then have p: "r \<in> parameterSet s" and h: "heap s r = Some c"
    and gx: "c_guard c x = Inr a" and gy: "c_guard c y = Inr b" by simp_all
  let ?ps = "Arr [Arr [Fun r, x], Arr [Fun r, y]]"
  let ?th = "Function 0 (call (Fun r) [])"
  let ?s2 = "s\<lparr>heap := (heap s)(r \<mapsto> c\<lparr>c_value := b\<rparr>)\<rparr>"
  show sn: "snapshotLoop [Arr [Fun r, x], Arr [Fun r, y]] [] s = (Inr [(Fun r, c_value c)], s)"
    using p h by (simp add: parameter_def)
  show tb: "tryBlock ?ps ?th s = (Inr b, ?s2)"
    using h gx gy by (simp add: tryBlock_def parameter_def)
  show rl: "restoreLoop [(Fun r, c_value c)] ?s2 =
        (case parameter r [c_value c] ?s2 of
           (Inl e, s3) \<Rightarrow> (Inl e, s3)
         | (Inr _, s3) \<Rightarrow> (Inr (), s3))"
    by (simp split: prod.split sum.split)
  obtain fin s3 where f: "parameter r [c_value c] ?s2 = (fin, s3)"
    by (cases "parameter r [c_value c] ?s2")
  have arr: "isArray ?ps \<and> list_all isPair (elements ?ps)" by simp
  have th: "isThunk ?th" by simp
  from sn have sn': "snapshotLoop (elements ?ps) [] s = (Inr [(Fun r, c_value c)], s)" by simp
  have rl': "restoreLoop [(Fun r, c_value c)] ?s2 =
               (case fin of Inl e \<Rightarrow> Inl e | Inr _ \<Rightarrow> Inr (), s3)"
    using f by (cases fin) simp_all
  from parameterize_unfold [OF arr th sn' tb rl'] f
  show "parameterize ?ps ?th s =
        (case parameter r [c_value c] ?s2 of
           (Inl e, s3) \<Rightarrow> (Inl e, s3)
         | (Inr _, s3) \<Rightarrow> (Inr b, s3))"
    by (cases fin) simp_all
qed

text \<open>
  The theorem at \<^verbatim>\<open>p = makeParameter("a", bangGuard)\<close>, which holds \<^verbatim>\<open>"a!"\<close>: the snapshot
  of \<^verbatim>\<open>[[p, "x"], [p, "y"]]\<close> is the one entry \<^verbatim>\<open>"a!"\<close>, and the call returns \<^verbatim>\<open>"y!"\<close>.
\<close>

theorem duplicate_bindings_witness:
  "0 \<in> parameterSet (made_with (Str ''a'') bangGuard) \<and>
   heap (made_with (Str ''a'') bangGuard) 0 = Some \<lparr>c_guard = bangGuard, c_value = Str ''a!''\<rparr> \<and>
   bangGuard (Str ''x'') = Inr (Str ''x!'') \<and>
   bangGuard (Str ''y'') = Inr (Str ''y!'') \<and>
   snapshotLoop [Arr [Fun 0, Str ''x''], Arr [Fun 0, Str ''y'']] [] (made_with (Str ''a'') bangGuard) =
     (Inr [(Fun 0, Str ''a!'')], made_with (Str ''a'') bangGuard) \<and>
   distinct (map fst [(Fun 0, Str ''a!'')]) \<and>
   get (made_with (Str ''a'') bangGuard) (Fun 0) = Inr (Str ''a!'') \<and>
   fst (tryBlock (Arr [Arr [Fun 0, Str ''x''], Arr [Fun 0, Str ''y'']]) (Function 0 (call (Fun 0) []))
          (made_with (Str ''a'') bangGuard)) = Inr (Str ''y!'') \<and>
   fst (parameterize (Arr [Arr [Fun 0, Str ''x''], Arr [Fun 0, Str ''y'']]) (Function 0 (call (Fun 0) []))
          (made_with (Str ''a'') bangGuard)) = Inr (Str ''y!'')"
proof -
  let ?s = "made_with (Str ''a'') bangGuard"
  let ?c = "\<lparr>c_guard = bangGuard, c_value = Str ''a!''\<rparr>"
  let ?l = "[Arr [Fun 0, Str ''x''], Arr [Fun 0, Str ''y'']]"
  have p: "0 \<in> parameterSet ?s" and h: "heap ?s 0 = Some ?c" by (simp_all add: made_bang)
  have gx: "bangGuard (Str ''x'') = Inr (Str ''x!'')" and gy: "bangGuard (Str ''y'') = Inr (Str ''y!'')"
    by (simp_all add: bangGuard_def)
  note t = duplicate_bindings [where r = 0 and s = ?s and c = ?c and x = "Str ''x''" and y = "Str ''y''"
      and a = "Str ''x!''" and b = "Str ''y!''" and ps = ?l and m = "[(Fun 0, Str ''a!'')]" and s' = ?s]
  from t p h gx gy have sn: "snapshotLoop ?l [] ?s = (Inr [(Fun 0, Str ''a!'')], ?s)" by simp
  with t have e: "distinct (map fst [(Fun 0, Str ''a!'')]) \<and>
      (\<forall>(k, v) \<in> set [(Fun 0, Str ''a!'')]. get ?s k = Inr v)" by blast
  then have g: "get ?s (Fun 0) = Inr (Str ''a!'')" by simp
  from t p h gx gy have tb: "fst (tryBlock (Arr ?l) (Function 0 (call (Fun 0) [])) ?s) = Inr (Str ''y!'')"
    by simp
  from t p h gx gy have "parameterize (Arr ?l) (Function 0 (call (Fun 0) [])) ?s =
        (case parameter 0 [Str ''a!''] (?s\<lparr>heap := (heap ?s)(0 \<mapsto> ?c\<lparr>c_value := Str ''y!''\<rparr>)\<rparr>) of
           (Inl e, s3) \<Rightarrow> (Inl e, s3)
         | (Inr _, s3) \<Rightarrow> (Inr (Str ''y!''), s3))"
    by simp
  then have pz: "fst (parameterize (Arr ?l) (Function 0 (call (Fun 0) [])) ?s) = Inr (Str ''y!'')"
    by (simp add: parameter_def bangGuard_def)
  from p h gx gy sn e g tb pz show ?thesis by simp
qed

text \<open>
  C4 as stated fails at \<^verbatim>\<open>p = makeParameter("a", bangGuard)\<close>, which holds \<^verbatim>\<open>"a!"\<close>:
  \<^verbatim>\<open>parameterize([[p, "x"], [p, "y"]], () => p())\<close> returns \<^verbatim>\<open>"y!"\<close>, not \<^verbatim>\<open>"y"\<close>, and
  \<^verbatim>\<open>p()\<close> is \<^verbatim>\<open>"a!!"\<close> afterwards, not the value \<open>p\<close> held before the call.
\<close>

theorem duplicate_bindings_counterexample:
  "isParameter (made_with (Str ''a'') bangGuard) (Fun 0) \<and>
   get (made_with (Str ''a'') bangGuard) (Fun 0) = Inr (Str ''a!'') \<and>
   fst (parameterize (Arr [Arr [Fun 0, Str ''x''], Arr [Fun 0, Str ''y'']]) (Function 0 (call (Fun 0) []))
          (made_with (Str ''a'') bangGuard)) = Inr (Str ''y!'') \<and>
   get (snd (parameterize (Arr [Arr [Fun 0, Str ''x''], Arr [Fun 0, Str ''y'']]) (Function 0 (call (Fun 0) []))
          (made_with (Str ''a'') bangGuard))) (Fun 0) = Inr (Str ''a!!'')"
  by (simp add: made_bang tryBlock_def parameterize_def parameter_def get_def bangGuard_def Let_def)

section \<open>Nested calls\<close>

text \<open>
  A call in any state, so also inside the body of another call, snapshots the value the
  parameter holds in that state; when the guard returns that value unchanged, the call
  returns the parameter to it, whatever the body does.
\<close>

lemma binding_restores_in_any_state:
  assumes p: "r \<in> parameterSet s"
    and h: "heap s r = Some c"
    and fr: "fresh s"
    and th: "isThunk thunk"
    and ok: "body_ok (callThunk thunk)"
    and fixed: "c_guard c (c_value c) = Inr (c_value c)"
  shows "snapshotLoop [Arr [Fun r, v]] [] s = (Inr [(Fun r, c_value c)], s) \<and>
         get (snd (parameterize (Arr [Arr [Fun r, v]]) thunk s)) (Fun r) = Inr (c_value c)"
proof -
  let ?ps = "Arr [Arr [Fun r, v]]"
  have vb: "valid_bindings s ?ps" using p by (simp add: valid_bindings_def)
  have cl: "has_closures s (map first (elements ?ps))" using h by (simp add: has_closures_def)
  have on: "guard_on_held s (Fun r) = Inr (c_value c)"
    using h fixed by (simp add: guard_on_held_closure)
  then have acc: "\<forall>pair \<in> set (elements ?ps). \<exists>w. guard_on_held s (first pair) = Inr w"
    by simp
  have sn: "snapshotLoop [Arr [Fun r, v]] [] s = (Inr [(Fun r, c_value c)], s)"
    using p h by (simp add: parameter_def)
  from parameterize_all_accept [OF vb th ok cl fr acc] on
  have "get (snd (parameterize ?ps thunk s)) (Fun r) = Inr (c_value c)" by auto
  with sn show ?thesis by simp
qed

text \<open>
  With the default guard the nesting of the specification's scenario is as it says. For
  \<^verbatim>\<open>n = makeParameter(1)\<close>,
  \<^verbatim>\<open>parameterize([[n, 2]], () => parameterize([[n, 3]], () => n()))\<close> returns 3 and ends in
  the state it started from; for any values \<open>a\<close>, \<open>b\<close>, \<open>c\<close> the inner snapshot records
  \<open>b\<close>, and an outer body that reads \<open>n\<close> after the inner call returns the pair of
  \<open>c\<close> and \<open>b\<close>.
\<close>

lemma nested_default_guard:
  "parameterize (Arr [Arr [Fun 0, Num 2]])
     (Function 0 (parameterize (Arr [Arr [Fun 0, Num 3]]) (Function 0 (call (Fun 0) []))))
     (made (Num 1)) = (Inr (Num 3), made (Num 1)) \<and>
   get (made (Num 1)) (Fun 0) = Inr (Num 1) \<and>
   parameterize (Arr [Arr [Fun 0, b]])
     (Function 0 (parameterize (Arr [Arr [Fun 0, c]]) (Function 0 (call (Fun 0) []))))
     (made a) = (Inr c, made a) \<and>
   snapshotLoop [Arr [Fun 0, c]] [] (made b) = (Inr [(Fun 0, b)], made b) \<and>
   parameterize (Arr [Arr [Fun 0, c]]) (Function 0 (call (Fun 0) [])) (made b) = (Inr c, made b) \<and>
   parameterize (Arr [Arr [Fun 0, b]])
     (Function 0 (thenRead (parameterize (Arr [Arr [Fun 0, c]]) (Function 0 (call (Fun 0) []))) (Fun 0)))
     (made a) = (Inr (Arr [c, b]), made a)"
  by (simp add: made_simps parameterize_def tryBlock_def parameter_def get_def defaultGuard_def
      thenRead_def Let_def)

text \<open>
  C5, at \<^verbatim>\<open>n = makeParameter(0, incrementGuard)\<close>, which holds 1. The outer binding \<^verbatim>\<open>n(2)\<close>
  makes \<open>n\<close> hold 3. In
  \<^verbatim>\<open>parameterize([[n, 2]], async () => [await parameterize([[n, 3]], () => n()), n()])\<close>
  the inner call returns 4 and the body then reads 4, not the outer-rebound 3: the inner
  restoration calls \<^verbatim>\<open>n(3)\<close>, which stores \<^verbatim>\<open>guard(3)\<close>. After both calls \<^verbatim>\<open>n()\<close> is 2,
  not 1.
\<close>

theorem nested_not_restored:
  "get (made_with (Num 0) incrementGuard) (Fun 0) = Inr (Num 1) \<and>
   get (snd (call (Fun 0) [Num 2] (made_with (Num 0) incrementGuard))) (Fun 0) = Inr (Num 3) \<and>
   snapshotLoop [Arr [Fun 0, Num 3]] [] (snd (call (Fun 0) [Num 2] (made_with (Num 0) incrementGuard))) =
     (Inr [(Fun 0, Num 3)], snd (call (Fun 0) [Num 2] (made_with (Num 0) incrementGuard))) \<and>
   get (snd (parameterize (Arr [Arr [Fun 0, Num 3]]) (Function 0 (call (Fun 0) []))
               (snd (call (Fun 0) [Num 2] (made_with (Num 0) incrementGuard))))) (Fun 0) = Inr (Num 4) \<and>
   fst (parameterize (Arr [Arr [Fun 0, Num 2]])
          (Function 0 (thenRead (parameterize (Arr [Arr [Fun 0, Num 3]]) (Function 0 (call (Fun 0) []))) (Fun 0)))
          (made_with (Num 0) incrementGuard)) = Inr (Arr [Num 4, Num 4]) \<and>
   fst (parameterize (Arr [Arr [Fun 0, Num 2]])
          (Function 0 (parameterize (Arr [Arr [Fun 0, Num 3]]) (Function 0 (call (Fun 0) []))))
          (made_with (Num 0) incrementGuard)) = Inr (Num 4) \<and>
   get (snd (parameterize (Arr [Arr [Fun 0, Num 2]])
               (Function 0 (parameterize (Arr [Arr [Fun 0, Num 3]]) (Function 0 (call (Fun 0) []))))
               (made_with (Num 0) incrementGuard))) (Fun 0) = Inr (Num 2)"
  by (simp add: made_increment parameterize_def tryBlock_def parameter_def get_def incrementGuard_def
      thenRead_def Let_def)

section \<open>The identity check\<close>

text \<open>
  On index.ts the identity check is exact. In a client program run from the initial
  state, \<^verbatim>\<open>isParameter\<close> is true of exactly the values \<^verbatim>\<open>makeParameter\<close> returned, and
  a function made outside the module is never one of them; \<^verbatim>\<open>isParameter\<close> is a lookup,
  and has no failure.
\<close>

lemma isParameter_parameterSet:
  "parameterSet s' = parameterSet s \<Longrightarrow> isParameter s' v = isParameter s v"
  by (cases v) simp_all

lemma run_isParameter:
  "run ops s = (ps, s') \<Longrightarrow> isParameter s' v = (isParameter s v \<or> v \<in> set ps)"
proof (induction ops s arbitrary: ps s' rule: run.induct)
  case (1 s)
  then show ?case by simp
next
  case (2 initialValue guardArg ops s)
  show ?case
  proof (cases "makeParameter initialValue guardArg s")
    case (Pair res s1)
    show ?thesis
    proof (cases res)
      case (Inl e)
      with Pair makeParameter_parameterSet [OF Pair] have "s1 = s" by simp
      with 2 Pair Inl show ?thesis by simp
    next
      case (Inr p)
      with Pair makeParameter_parameterSet [OF Pair] have
        p: "p = Fun (next_ref s)" "parameterSet s1 = insert (next_ref s) (parameterSet s)"
        by simp_all
      obtain qs where r: "run ops s1 = (qs, s')" and ps: "ps = p # qs"
        using "2.prems" Pair Inr by (auto split: prod.splits)
      from "2.IH"(2) [OF Pair [symmetric] Inr r] have "isParameter s' v = (isParameter s1 v \<or> v \<in> set qs)" .
      moreover have "isParameter s1 v = (isParameter s v \<or> v = p)"
        using p by (cases v) auto
      ultimately show ?thesis using ps by auto
    qed
  qed
next
  case (3 c ops s)
  from "3.IH" [of ps s'] "3.prems" have
    "isParameter s' v = (isParameter (snd (newFunction c s)) v \<or> v \<in> set ps)" by simp
  moreover have "isParameter (snd (newFunction c s)) v = isParameter s v"
    by (rule isParameter_parameterSet) (simp add: newFunction_def Let_def)
  ultimately show ?case by simp
next
  case (4 f args ops s)
  from "4.IH" [of ps s'] "4.prems" have
    "isParameter s' v = (isParameter (snd (call f args s)) v \<or> v \<in> set ps)" by simp
  moreover have "isParameter (snd (call f args s)) v = isParameter s v"
    by (rule isParameter_parameterSet) (simp add: call_frame)
  ultimately show ?case by simp
qed

lemma isParameter_iff_made:
  "run ops init = (ps, s) \<Longrightarrow> isParameter s v = (v \<in> set ps)"
  using run_isParameter [of ops init ps s v] by (cases v) (simp_all add: init_def)

lemma run_fresh: "fresh s \<Longrightarrow> fresh (snd (run ops s))"
proof (induction ops s rule: run.induct)
  case (1 s)
  then show ?case by simp
next
  case (2 initialValue guardArg ops s)
  show ?case
  proof (cases "makeParameter initialValue guardArg s")
    case (Pair res s1)
    with fresh_makeParameter [OF "2.prems", of initialValue guardArg] have f: "fresh s1" by simp
    show ?thesis
    proof (cases res)
      case (Inl e)
      with "2.IH"(1) [OF Pair [symmetric] Inl f] Pair show ?thesis by simp
    next
      case (Inr p)
      with "2.IH"(2) [OF Pair [symmetric] Inr f] Pair show ?thesis
        by (auto split: prod.splits)
    qed
  qed
next
  case (3 c ops s)
  then show ?case by (simp add: fresh_newFunction)
next
  case (4 f args ops s)
  then show ?case by (simp add: fresh_call)
qed

lemma run_made_refs:
  "run ops s = (ps, s') \<Longrightarrow> \<forall>p \<in> set ps. \<exists>r. p = Fun r \<and> next_ref s \<le> r"
proof (induction ops s arbitrary: ps s' rule: run.induct)
  case (1 s)
  then show ?case by simp
next
  case (2 initialValue guardArg ops s)
  show ?case
  proof (cases "makeParameter initialValue guardArg s")
    case (Pair res s1)
    show ?thesis
    proof (cases res)
      case (Inl e)
      with Pair makeParameter_parameterSet [OF Pair] have "s1 = s" by simp
      with "2.IH"(1) [OF Pair [symmetric] Inl, of ps s'] "2.prems" Pair Inl show ?thesis by simp
    next
      case (Inr p)
      with Pair makeParameter_parameterSet [OF Pair] have
        p: "p = Fun (next_ref s)" "next_ref s1 = Suc (next_ref s)"
        by simp_all
      obtain qs where r: "run ops s1 = (qs, s')" and ps: "ps = p # qs"
        using "2.prems" Pair Inr by (auto split: prod.splits)
      from "2.IH"(2) [OF Pair [symmetric] Inr r] p ps show ?thesis by fastforce
    qed
  qed
next
  case (3 c ops s)
  from "3.IH" [of ps s'] "3.prems" show ?case
    by (fastforce simp: newFunction_def Let_def)
next
  case (4 f args ops s)
  from "4.IH" [of ps s'] "4.prems" call_frame [of f args s] show ?case by simp
qed

lemma lookalike_not_parameter:
  assumes before: "run ops init = (ps, s)"
    and after: "run ops' (snd (newFunction c s)) = (ps', s')"
  shows "\<not> isParameter s' (fst (newFunction c s))"
proof -
  from run_fresh [OF fresh_init, of ops] before have f: "fresh s" by simp
  let ?s1 = "snd (newFunction c s)"
  have v: "fst (newFunction c s) = Fun (next_ref s)" by (simp add: newFunction_def Let_def)
  have n: "next_ref ?s1 = Suc (next_ref s)" "parameterSet ?s1 = parameterSet s"
    by (simp_all add: newFunction_def Let_def)
  from f have "next_ref s \<notin> parameterSet s" by (auto simp: fresh_def)
  with n have a: "\<not> isParameter ?s1 (Fun (next_ref s))" by simp
  from run_made_refs [OF after] n have b: "Fun (next_ref s) \<notin> set ps'" by fastforce
  from run_isParameter [OF after, of "Fun (next_ref s)"] a b v show ?thesis by simp
qed

text \<open>In every state a client program reaches, the members of \<^verbatim>\<open>parameterSet\<close> have their
  closures.\<close>

lemma wf_init: "wf init"
  by (simp add: wf_def init_def)

lemma wf_makeParameter: "wf s \<Longrightarrow> wf (snd (makeParameter initialValue guardArg s))"
  by (auto simp: wf_def makeParameter_def Let_def split: arg.splits sum.splits val.splits)

lemma wf_call: "wf s \<Longrightarrow> wf (snd (call f args s))"
proof -
  assume w: "wf s"
  have "parameterSet (snd (call f args s)) = parameterSet s"
    "dom (heap (snd (call f args s))) = dom (heap s)"
    using call_frame [of f args s] by simp_all
  with w show ?thesis by (auto simp: wf_def dom_def)
qed

lemma wf_newFunction: "fresh s \<Longrightarrow> wf s \<Longrightarrow> wf (snd (newFunction c s))"
  by (fastforce simp: wf_def fresh_def newFunction_def Let_def)

lemma run_wf: "fresh s \<Longrightarrow> wf s \<Longrightarrow> wf (snd (run ops s))"
proof (induction ops s rule: run.induct)
  case (1 s)
  then show ?case by simp
next
  case (2 initialValue guardArg ops s)
  show ?case
  proof (cases "makeParameter initialValue guardArg s")
    case (Pair res s1)
    with fresh_makeParameter [OF "2.prems"(1), of initialValue guardArg]
      wf_makeParameter [OF "2.prems"(2), of initialValue guardArg]
    have f: "fresh s1" and w: "wf s1" by simp_all
    show ?thesis
    proof (cases res)
      case (Inl e)
      with "2.IH"(1) [OF Pair [symmetric] Inl f w] Pair show ?thesis by simp
    next
      case (Inr p)
      with "2.IH"(2) [OF Pair [symmetric] Inr f w] Pair show ?thesis
        by (auto split: prod.splits)
    qed
  qed
next
  case (3 c ops s)
  then show ?case by (simp add: fresh_newFunction wf_newFunction)
next
  case (4 f args ops s)
  then show ?case by (simp add: fresh_call wf_call)
qed

lemma reachable_wf: "wf (snd (run ops init))"
  using run_wf [OF fresh_init wf_init] .

text \<open>
  C6, on index.js. \<^verbatim>\<open>const p = makeParameter(42)\<close> returns the function \<open>Fun 0\<close>. A
  function \<open>Fun 1\<close> made outside the module, with \<^verbatim>\<open>p\<close>'s own property copied onto it, is
  a parameter for \<^verbatim>\<open>isParameter\<close>; and with a number under that key, \<^verbatim>\<open>isParameter\<close>
  throws.
\<close>

theorem isParameter_js_forged:
  "fst (makeParameter_js (Num 42) (NotFunction Undefined) js_init) = Inr (Fun 0) \<and>
   isParameter_js js_one (Fun 0) = Inr True \<and>
   fst (defineFunction (own_property js_one 0) js_one) = Fun 1 \<and>
   isParameter_js (snd (defineFunction (own_property js_one 0) js_one)) (Fun 1) = Inr True \<and>
   fst (defineFunction (Some (Data (Num 1))) js_one) = Fun 1 \<and>
   isParameter_js (snd (defineFunction (Some (Data (Num 1))) js_one)) (Fun 1) =
     Inl (TypeError ''value[IS_PARAMETER_METHOD] is not a function'')"
  by (simp add: js_one_def makeParameter_js_def js_init_def defaultGuard_def Let_def
      isParameter_js_def defineFunction_def parameterMethod_def)

section \<open>Preconditions\<close>

text \<open>
  C7. When a precondition fails (the first argument is not an array of two-element arrays,
  the second is not a function of length 0, or some pair's first item is not a
  parameter), \<^verbatim>\<open>parameterize\<close> fails with the TypeError of the first check that fails and
  the state is the state it was called in: no parameter has changed.
\<close>

theorem invalid_arguments_touch_nothing:
  assumes wf: "wf s"
    and bad: "\<not> (isArray parameters \<and> list_all isPair (elements parameters)) \<or>
              \<not> isThunk thunk \<or>
              \<not> list_all (\<lambda>pair. isParameter s (first pair)) (elements parameters)"
  shows "parameterize parameters thunk s =
           (Inl (TypeError
              (if \<not> (isArray parameters \<and> list_all isPair (elements parameters))
               then ''Expected first argument to be an array of pairs''
               else if \<not> isThunk thunk
               then ''Expected second argument to be a thunk''
               else ''Expected first item of pair to be a parameter'')), s)"
proof (cases "isArray parameters \<and> list_all isPair (elements parameters)")
  case False
  then show ?thesis by (simp add: parameterize_def)
next
  case arr: True
  show ?thesis
  proof (cases "isThunk thunk")
    case False
    with arr show ?thesis by (simp add: parameterize_def)
  next
    case True
    with arr bad have "\<not> list_all (\<lambda>pair. isParameter s (first pair)) (elements parameters)"
      by simp
    from snapshotLoop_fail [OF wf this, of "[]"] arr True
    show ?thesis by (simp add: parameterize_def)
  qed
qed

text \<open>
  The theorem at the calls of the test file: \<^verbatim>\<open>parameterize({}, () => {})\<close>,
  \<^verbatim>\<open>parameterize([[param]], () => {})\<close>, a body of length 1, and a list whose second pair
  starts with \<^verbatim>\<open>null\<close> after a valid first pair.
\<close>

theorem invalid_arguments_touch_nothing_witness:
  "wf (made Null) \<and>
   \<not> isArray (Obj 0) \<and>
   parameterize (Obj 0) (Function 0 emptyBody) (made Null) =
     (Inl (TypeError ''Expected first argument to be an array of pairs''), made Null) \<and>
   \<not> list_all isPair (elements (Arr [Arr [Fun 0]])) \<and>
   parameterize (Arr [Arr [Fun 0]]) (Function 0 emptyBody) (made Null) =
     (Inl (TypeError ''Expected first argument to be an array of pairs''), made Null) \<and>
   \<not> isThunk (Function 1 emptyBody) \<and>
   parameterize (Arr [Arr [Fun 0, Num 1]]) (Function 1 emptyBody) (made Null) =
     (Inl (TypeError ''Expected second argument to be a thunk''), made Null) \<and>
   \<not> list_all (\<lambda>pair. isParameter (made Null) (first pair))
        (elements (Arr [Arr [Fun 0, Num 1], Arr [Null, Obj 0]])) \<and>
   parameterize (Arr [Arr [Fun 0, Num 1], Arr [Null, Obj 0]]) (Function 0 emptyBody) (made Null) =
     (Inl (TypeError ''Expected first item of pair to be a parameter''), made Null)"
proof -
  let ?s = "made Null"
  have wf: "wf ?s" by (simp add: made_simps wf_def)
  have a: "\<not> isArray (Obj 0)" by simp
  have b: "\<not> list_all isPair (elements (Arr [Arr [Fun 0]]))" by simp
  have c: "\<not> isThunk (Function 1 emptyBody)" by simp
  have d: "\<not> list_all (\<lambda>pair. isParameter ?s (first pair))
             (elements (Arr [Arr [Fun 0, Num 1], Arr [Null, Obj 0]]))" by simp
  from invalid_arguments_touch_nothing [OF wf, of "Obj 0" "Function 0 emptyBody"] a
  have 1: "parameterize (Obj 0) (Function 0 emptyBody) ?s =
     (Inl (TypeError ''Expected first argument to be an array of pairs''), ?s)"
    by simp
  from invalid_arguments_touch_nothing [OF wf, of "Arr [Arr [Fun 0]]" "Function 0 emptyBody"] b
  have 2: "parameterize (Arr [Arr [Fun 0]]) (Function 0 emptyBody) ?s =
     (Inl (TypeError ''Expected first argument to be an array of pairs''), ?s)"
    by simp
  from invalid_arguments_touch_nothing [OF wf, of "Arr [Arr [Fun 0, Num 1]]" "Function 1 emptyBody"] c
  have 3: "parameterize (Arr [Arr [Fun 0, Num 1]]) (Function 1 emptyBody) ?s =
     (Inl (TypeError ''Expected second argument to be a thunk''), ?s)"
    by simp
  from invalid_arguments_touch_nothing
    [OF wf, of "Arr [Arr [Fun 0, Num 1], Arr [Null, Obj 0]]" "Function 0 emptyBody"] d
  have 4: "parameterize (Arr [Arr [Fun 0, Num 1], Arr [Null, Obj 0]]) (Function 0 emptyBody) ?s =
     (Inl (TypeError ''Expected first item of pair to be a parameter''), ?s)"
    by simp
  from wf a b c d 1 2 3 4 show ?thesis by (intro conjI)
qed

section \<open>Dispatch on the number of arguments\<close>



text \<open>
  C10. Calling a parameter with more than one argument is the call with the first argument
  alone, in result and in state: the guard is applied to the first argument, its failure
  is the call's failure and otherwise its result is stored and returned; the other
  arguments are not looked at, and no failure comes from them.
\<close>

theorem extra_arguments_ignored:
  "parameter r (x # y # rest) s = parameter r [x] s \<and>
   (heap s r = Some c \<longrightarrow>
      parameter r (x # y # rest) s =
        (case c_guard c x of
           Inl e \<Rightarrow> (Inl e, s)
         | Inr v \<Rightarrow> (Inr v, s\<lparr>heap := (heap s)(r \<mapsto> c\<lparr>c_value := v\<rparr>)\<rparr>)))"
  by (simp add: parameter_def split: option.split)

text \<open>
  The theorem at \<^verbatim>\<open>p = makeParameter(1, positiveGuard)\<close>: \<^verbatim>\<open>p(5, 0)\<close> returns 5 and
  stores it, though the guard rejects 0, and \<^verbatim>\<open>p(0, 5)\<close> fails as \<^verbatim>\<open>p(0)\<close> does and
  stores nothing.
\<close>

theorem extra_arguments_ignored_witness:
  "heap (made_with (Num 1) positiveGuard) 0 = Some \<lparr>c_guard = positiveGuard, c_value = Num 1\<rparr> \<and>
   positiveGuard (Num 5) = Inr (Num 5) \<and>
   positiveGuard (Num 0) = Inl (Thrown (Str ''Must be positive'')) \<and>
   fst (parameter 0 [Num 5, Num 0] (made_with (Num 1) positiveGuard)) = Inr (Num 5) \<and>
   get (snd (parameter 0 [Num 5, Num 0] (made_with (Num 1) positiveGuard))) (Fun 0) = Inr (Num 5) \<and>
   parameter 0 [Num 0, Num 5] (made_with (Num 1) positiveGuard) =
     (Inl (Thrown (Str ''Must be positive'')), made_with (Num 1) positiveGuard)"
proof -
  let ?s = "made_with (Num 1) positiveGuard"
  let ?c = "\<lparr>c_guard = positiveGuard, c_value = Num 1\<rparr>"
  have s: "?s = \<lparr>heap = [0 \<mapsto> ?c], parameterSet = {0}, next_ref = Suc 0\<rparr>"
    by (rule made_with_ok) (simp add: positiveGuard_def)
  have h: "heap ?s 0 = Some ?c" by (simp add: s)
  have a: "positiveGuard (Num 5) = Inr (Num 5)" by (simp add: positiveGuard_def)
  have b: "positiveGuard (Num 0) = Inl (Thrown (Str ''Must be positive''))"
    by (simp add: positiveGuard_def)
  have "heap ?s 0 = Some ?c \<longrightarrow>
      parameter 0 [Num 5, Num 0] ?s =
        (case c_guard ?c (Num 5) of
           Inl e \<Rightarrow> (Inl e, ?s)
         | Inr v \<Rightarrow> (Inr v, ?s\<lparr>heap := (heap ?s)(0 \<mapsto> ?c\<lparr>c_value := v\<rparr>)\<rparr>))"
    using extra_arguments_ignored [where r = 0 and s = ?s and c = ?c and x = "Num 5" and y = "Num 0" and rest = "[]"]
    by (rule conjunct2)
  with h a
  have 1: "parameter 0 [Num 5, Num 0] ?s = (Inr (Num 5), ?s\<lparr>heap := (heap ?s)(0 \<mapsto> ?c\<lparr>c_value := Num 5\<rparr>)\<rparr>)"
    by simp
  then have 2: "fst (parameter 0 [Num 5, Num 0] ?s) = Inr (Num 5)" by simp
  from 1 have 3: "get (snd (parameter 0 [Num 5, Num 0] ?s)) (Fun 0) = Inr (Num 5)"
    by (simp add: get_def parameter_def)
  have "heap ?s 0 = Some ?c \<longrightarrow>
      parameter 0 [Num 0, Num 5] ?s =
        (case c_guard ?c (Num 0) of
           Inl e \<Rightarrow> (Inl e, ?s)
         | Inr v \<Rightarrow> (Inr v, ?s\<lparr>heap := (heap ?s)(0 \<mapsto> ?c\<lparr>c_value := v\<rparr>)\<rparr>))"
    using extra_arguments_ignored [where r = 0 and s = ?s and c = ?c and x = "Num 0" and y = "Num 5" and rest = "[]"]
    by (rule conjunct2)
  with h b
  have 4: "parameter 0 [Num 0, Num 5] ?s = (Inl (Thrown (Str ''Must be positive'')), ?s)"
    by simp
  from h a b 2 3 4 show ?thesis by (intro conjI)
qed

section \<open>Restoration runs the guard\<close>




end
